theory Spec2Isabelle
  imports Complex_Main "HOL-Library.Extended_Nat"
begin

section \<open>Renderer, textures and render targets\<close>

text \<open>
  Textures are objects with identity; a texture handle names one buffer slot of GPU memory.
  A \<open>WebGLRenderTarget\<close> owns one texture, a \<open>WebGLMultipleRenderTargets\<close> owns a list
  of textures. JavaScript numbers that count things are modelled as naturals.
\<close>

type_synonym tex = nat

record WebGLRenderTarget =
  rt_texture :: tex
  rt_width :: nat
  rt_height :: nat

record WebGLMultipleRenderTargets =
  mrt_texture :: "tex list"
  mrt_width :: nat
  mrt_height :: nat

text \<open>
  The renderer keeps the attachments of the current render target, the contents of every
  buffer slot, and (as its observable behaviour) the sequence of draws it executed: for each
  draw the attachments written and the snapshot \<open>'u\<close> of the material state it was issued with.
\<close>

record ('u, 'p) renderer =
  currentTarget :: "tex list"
  vram :: "tex \<Rightarrow> 'p"
  calls :: "(tex list \<times> 'u) list"

definition setRenderTarget :: "tex list \<Rightarrow> ('u, 'p) renderer \<Rightarrow> ('u, 'p) renderer" where
  "setRenderTarget ts r = r\<lparr>currentTarget := ts\<rparr>"

fun index_of :: "'a \<Rightarrow> 'a list \<Rightarrow> nat option" where
  "index_of x [] = None"
| "index_of x (y # ys) =
     (if x = y then Some 0 else (case index_of x ys of None \<Rightarrow> None | Some k \<Rightarrow> Some (Suc k)))"

text \<open>
  \<open>renderer.render(scene, camera)\<close> for a full-screen pass: the program \<open>sh\<close> of the material
  computes, from the material snapshot and the memory it samples, the new contents of
  attachment \<open>k\<close>; every attachment of the current target is overwritten, nothing else is.
\<close>

definition render_draw ::
  "('u \<Rightarrow> (tex \<Rightarrow> 'p) \<Rightarrow> nat \<Rightarrow> 'p) \<Rightarrow> 'u \<Rightarrow> ('u, 'p) renderer \<Rightarrow> ('u, 'p) renderer" where
  "render_draw sh u r =
     r\<lparr>vram := (\<lambda>t. case index_of t (currentTarget r) of
                       None \<Rightarrow> vram r t
                     | Some k \<Rightarrow> sh u (vram r) k),
       calls := calls r @ [(currentTarget r, u)]\<rparr>"

section \<open>DenoisePass\<close>

text \<open>
  The uniforms of the denoise material that hold textures or are written by \<open>render\<close>.
  A texture uniform may be \<open>null\<close> (\<open>None\<close>).

  \<open>iterations\<close> is a JavaScript number that nothing validates: any finite number, whole or
  not, here a real. The loop counter \<open>i\<close> takes the values 0, 1, 2, ..., which doubles
  count exactly up to \<open>2 ^ 53\<close>, and \<open>i < 2 * this.iterations\<close> compares two numbers
  exactly (doubling a double is exact). At \<open>2 ^ 53\<close> the increment \<open>i++\<close> leaves \<open>i\<close>
  unchanged, so for \<open>iterations\<close> above \<open>2 ^ 52\<close> the loop of the code never ends; the
  function below is the loop for \<open>iterations \<le> 2 ^ 52\<close>, and the theorems on what a
  \<open>render\<close> with at least one half-pass does carry that bound. The step size is a double:
  1, a power of two, or \<open>Infinity\<close> (here \<open>\<infinity>\<close>).
\<close>

text \<open>
  \<open>2 ** k\<close> for a whole \<open>k \<ge> 0\<close> in double arithmetic: the power of two itself up to
  \<open>2 ^ 1023\<close>, the largest one a double holds, and \<open>Infinity\<close> from \<open>k = 1024\<close> on.
\<close>

definition pow2 :: "nat \<Rightarrow> enat" where
  "pow2 k = (if k < 1024 then enat (2 ^ k) else \<infinity>)"

record denoise_uniforms =
  inputTexture :: "tex option"
  diffuseTexture :: "tex option"
  depthTexture :: "tex option"
  normalTexture :: "tex option"
  momentsTexture :: "tex option"
  horizontal :: bool
  stepSize :: enat

record DenoisePass =
  iterations :: real
  uniforms :: denoise_uniforms
  renderTargetA :: WebGLRenderTarget
  renderTargetB :: WebGLRenderTarget

text \<open>
  The body of the \<open>for\<close> loop of \<open>DenoisePass.render\<close> for loop index \<open>i\<close>; the local
  \<open>stepSize\<close> is carried from one round to the next, \<open>inputTexture\<close> is the constant
  saved on entry.
\<close>

definition half_pass ::
  "(denoise_uniforms \<Rightarrow> (tex \<Rightarrow> 'p) \<Rightarrow> nat \<Rightarrow> 'p) \<Rightarrow> tex option \<Rightarrow> nat \<Rightarrow> enat \<Rightarrow>
   DenoisePass \<times> (denoise_uniforms, 'p) renderer \<Rightarrow>
   enat \<times> DenoisePass \<times> (denoise_uniforms, 'p) renderer" where
  "half_pass sh inputTexture0 i stepSize0 pr =
     (let this = fst pr; renderer = snd pr;
          horizontal' = (i mod 2 = 0);
          stepSize' = (if horizontal' then pow2 (i div 2) else stepSize0);
          u1 = (uniforms this)\<lparr>horizontal := horizontal', stepSize := stepSize'\<rparr>;
          renderTarget = (if horizontal' then renderTargetA this else renderTargetB this);
          u2 = u1\<lparr>inputTexture :=
                 (if horizontal'
                  then (if i = 0 then inputTexture0 else Some (rt_texture (renderTargetB this)))
                  else Some (rt_texture (renderTargetA this)))\<rparr>;
          renderer1 = setRenderTarget [rt_texture renderTarget] renderer;
          renderer2 = render_draw sh u2 renderer1
      in (stepSize', this\<lparr>uniforms := u2\<rparr>, renderer2))"

function render_loop ::
  "(denoise_uniforms \<Rightarrow> (tex \<Rightarrow> 'p) \<Rightarrow> nat \<Rightarrow> 'p) \<Rightarrow> tex option \<Rightarrow> nat \<Rightarrow> enat \<Rightarrow>
   DenoisePass \<times> (denoise_uniforms, 'p) renderer \<Rightarrow>
   DenoisePass \<times> (denoise_uniforms, 'p) renderer" where
  "render_loop sh inputTexture0 i stepSize0 pr =
     (if real i < 2 * iterations (fst pr)
      then (case half_pass sh inputTexture0 i stepSize0 pr of
              (stepSize', pr') \<Rightarrow> render_loop sh inputTexture0 (i + 1) stepSize' pr')
      else pr)"
  by pat_completeness auto
termination
proof (relation "measure (\<lambda>(sh, inp, i, s, pr). nat \<lceil>2 * iterations (fst pr)\<rceil> - i)", goal_cases)
  case 1
  show ?case by simp
next
  case (2 sh inp i ss pr ss' pr')
  from 2(1) have "int i < \<lceil>2 * iterations (fst pr)\<rceil>"
    by (simp add: less_ceiling_iff)
  then have "i < nat \<lceil>2 * iterations (fst pr)\<rceil>"
    by linarith
  moreover have "iterations (fst pr') = iterations (fst pr)"
    using 2(2) by (auto simp: half_pass_def Let_def)
  ultimately show ?case by simp
qed

declare render_loop.simps [simp del]

definition DenoisePass_render ::
  "(denoise_uniforms \<Rightarrow> (tex \<Rightarrow> 'p) \<Rightarrow> nat \<Rightarrow> 'p) \<Rightarrow>
   DenoisePass \<times> (denoise_uniforms, 'p) renderer \<Rightarrow>
   DenoisePass \<times> (denoise_uniforms, 'p) renderer" where
  "DenoisePass_render sh pr =
     (let inputTexture0 = inputTexture (uniforms (fst pr));
          pr' = render_loop sh inputTexture0 0 1 pr
      in ((fst pr')\<lparr>uniforms := (uniforms (fst pr'))\<lparr>inputTexture := inputTexture0\<rparr>\<rparr>, snd pr'))"

text \<open>The \<open>texture\<close> getter of the pass.\<close>

definition DenoisePass_texture :: "DenoisePass \<Rightarrow> tex" where
  "DenoisePass_texture this = rt_texture (renderTargetB this)"

text \<open>The draws that one call of \<open>render\<close> adds to the renderer's sequence of draws.\<close>

definition half_passes ::
  "(denoise_uniforms \<Rightarrow> (tex \<Rightarrow> 'p) \<Rightarrow> nat \<Rightarrow> 'p) \<Rightarrow>
   DenoisePass \<times> (denoise_uniforms, 'p) renderer \<Rightarrow> (tex list \<times> denoise_uniforms) list" where
  "half_passes sh pr = drop (length (calls (snd pr))) (calls (snd (DenoisePass_render sh pr)))"

text \<open>
  Buffer memory after one draw that was issued with the attachments and the material
  snapshot \<open>e\<close>, given the memory \<open>m\<close> before it.
\<close>

definition written ::
  "('u \<Rightarrow> (tex \<Rightarrow> 'p) \<Rightarrow> nat \<Rightarrow> 'p) \<Rightarrow> (tex \<Rightarrow> 'p) \<Rightarrow> tex list \<times> 'u \<Rightarrow> tex \<Rightarrow> 'p" where
  "written sh m e =
     (\<lambda>t. case index_of t (fst e) of None \<Rightarrow> m t | Some k \<Rightarrow> sh (snd e) m k)"

section \<open>Cameras, scene objects and the state shared by the passes\<close>

text \<open>
  JavaScript numbers that are coordinates or matrix entries are modelled as reals.
  A camera that supports view offsets (a perspective or orthographic camera of the
  rendering library) has the methods \<open>setViewOffset\<close> and \<open>clearViewOffset\<close>; the
  field \<open>hasViewOffset\<close> says whether the object has them. The two library methods are
  modelled as the library defines them: \<open>clearViewOffset\<close> disables the view if there is
  one, \<open>setViewOffset\<close> creates the view if needed, enables it and stores its arguments.
\<close>

type_synonym matrix4 = "real list"

record view =
  enabled :: bool
  fullWidth :: nat
  fullHeight :: nat
  offsetX :: real
  offsetY :: real
  width :: nat
  height :: nat

record camera =
  hasViewOffset :: bool
  view :: "view option"
  matrixWorld :: matrix4
  matrixWorldInverse :: matrix4

definition clearViewOffset :: "camera \<Rightarrow> camera" where
  "clearViewOffset c =
     (case view c of None \<Rightarrow> c | Some v \<Rightarrow> c\<lparr>view := Some (v\<lparr>enabled := False\<rparr>)\<rparr>)"

definition setViewOffset :: "nat \<Rightarrow> nat \<Rightarrow> real \<Rightarrow> real \<Rightarrow> nat \<Rightarrow> nat \<Rightarrow> camera \<Rightarrow> camera" where
  "setViewOffset fw fh x y w h c =
     c\<lparr>view := Some \<lparr>enabled = True, fullWidth = fw, fullHeight = fh,
                      offsetX = x, offsetY = y, width = w, height = h\<rparr>\<rparr>"

text \<open>The view offset that is in effect on a camera: that of an enabled view.\<close>

definition view_offset :: "camera \<Rightarrow> (real \<times> real) option" where
  "view_offset c =
     (case view c of
        None \<Rightarrow> None
      | Some v \<Rightarrow> if enabled v then Some (offsetX v, offsetY v) else None)"

text \<open>
  Materials and meshes are objects with identity, named by handles; a mesh refers to its
  material by handle, so that \<open>!==\<close> on materials is inequality of handles.
\<close>

record Material =
  mat_visible :: bool
  depthWrite :: bool
  depthTest :: bool

record Mesh =
  material :: nat
  visible :: bool
  constructor_name :: string

text \<open>
  The scene background is \<open>null\<close>, the module-level constant \<open>backgroundColor\<close> of
  VelocityPass.js, or some other colour or texture object.
\<close>

datatype Background = NoBackground | backgroundColor | OtherBackground nat

datatype error = TypeError

text \<open>
  The uniforms of the temporal resolve material that the constructor and \<open>render\<close> of
  TemporalResolvePass set (the material itself is not among the sources at hand), and the
  uniforms of the copy material that \<open>render\<close> sets.
\<close>

record resolve_uniforms =
  accumulatedTexture :: "tex option"
  lastDepthTexture :: "tex option"
  lastNormalTexture :: "tex option"
  velocityTexture :: "tex option"
  tr_depthTexture :: "tex option"
  tr_normalTexture :: "tex option"
  prevCameraMatrixWorld :: matrix4
  prevViewMatrix :: matrix4

record copy_uniforms =
  cp_inputTexture :: "tex option"
  inputTexture2 :: "tex option"
  inputTexture3 :: "tex option"

text \<open>
  What a draw is issued with: the geometry draw of the velocity pass sees the camera, the
  scene background and the meshes it collected; the two full-screen draws see the uniforms
  of their material.
\<close>

datatype snapshot =
    GeometrySnap camera Background "(nat \<times> Mesh) list"
  | ResolveSnap resolve_uniforms
  | CopySnap copy_uniforms

record 'p world =
  cameras :: "nat \<Rightarrow> camera"
  meshes :: "nat \<Rightarrow> Mesh"
  materials :: "nat \<Rightarrow> Material"
  background :: Background
  next_id :: nat
  gpu :: "(snapshot, 'p) renderer"

text \<open>\<open>new\<close> returns an object that did not exist before: handles are handed out in order.\<close>

definition new_textures :: "nat \<Rightarrow> 'p world \<Rightarrow> tex list \<times> 'p world" where
  "new_textures n w = ([next_id w ..< next_id w + n], w\<lparr>next_id := next_id w + n\<rparr>)"

text \<open>Indexing a JavaScript array: \<open>undefined\<close> (here \<open>None\<close>) out of range.\<close>

definition at_index :: "'a list \<Rightarrow> nat \<Rightarrow> 'a option" where
  "at_index xs i = (if i < length xs then Some (xs ! i) else None)"

section \<open>VelocityPass\<close>

record VelocityPass =
  vp_camera :: nat
  vp_renderTarget :: WebGLMultipleRenderTargets
  cachedMaterials :: "nat \<rightharpoonup> nat \<times> nat"
  visibleMeshes :: "nat list"

definition VelocityPass_new :: "nat \<Rightarrow> 'p world \<Rightarrow> VelocityPass \<times> 'p world" where
  "VelocityPass_new cam w =
     (case new_textures 3 w of (ts, w') \<Rightarrow>
        (\<lparr>vp_camera = cam,
          vp_renderTarget = \<lparr>mrt_texture = ts, mrt_width = 1, mrt_height = 1\<rparr>,
          cachedMaterials = Map.empty,
          visibleMeshes = []\<rparr>, w'))"

definition VelocityPass_texture :: "VelocityPass \<Rightarrow> tex option" where
  "VelocityPass_texture this = at_index (mrt_texture (vp_renderTarget this)) 0"

definition VelocityPass_depthTexture :: "VelocityPass \<Rightarrow> tex option" where
  "VelocityPass_depthTexture this = at_index (mrt_texture (vp_renderTarget this)) 1"

definition VelocityPass_normalTexture :: "VelocityPass \<Rightarrow> tex option" where
  "VelocityPass_normalTexture this = at_index (mrt_texture (vp_renderTarget this)) 2"

text \<open>
  \<open>new VelocityMaterial()\<close>: a fresh material with the library's default flags. What the
  pass and the helpers of Utils.js then write into that material (normal scale, defines,
  uniforms, side, bone texture) lives in the velocity material only and is not modelled.
\<close>

definition new_VelocityMaterial :: "'p world \<Rightarrow> nat \<times> 'p world" where
  "new_VelocityMaterial w =
     (next_id w,
      w\<lparr>next_id := next_id w + 1,
        materials := (materials w)
           (next_id w := \<lparr>mat_visible = True, depthWrite = True, depthTest = True\<rparr>)\<rparr>)"

text \<open>The body of the loop of \<open>setVelocityMaterialInScene\<close> for the mesh \<open>c\<close>.\<close>

definition setVelocityMaterial :: "nat \<Rightarrow> VelocityPass \<times> 'p world \<Rightarrow> VelocityPass \<times> 'p world" where
  "setVelocityMaterial c tw =
     (let this = fst tw; w = snd tw;
          originalMaterial = material (meshes w c);
          fresh = (case new_VelocityMaterial w of (vm, w1) \<Rightarrow>
                     (vm,
                      this\<lparr>cachedMaterials := (cachedMaterials this)(c \<mapsto> (originalMaterial, vm))\<rparr>,
                      w1\<lparr>meshes := (meshes w1)(c := (meshes w1 c)\<lparr>material := vm\<rparr>)\<rparr>));
          r = (case cachedMaterials this c of
                 None \<Rightarrow> fresh
               | Some (cachedOriginalMaterial, velocityMaterial) \<Rightarrow>
                   if originalMaterial \<noteq> cachedOriginalMaterial then fresh
                   else (velocityMaterial, this, w));
          velocityMaterial = fst r; this' = fst (snd r); w' = snd (snd r);
          om = materials w' originalMaterial;
          c' = (meshes w' c)\<lparr>material := velocityMaterial,
                 visible := (mat_visible om \<and> depthWrite om \<and> depthTest om \<and>
                             constructor_name (meshes w' c) \<noteq> ''GroundProjectedEnv'')\<rparr>
      in (this', w'\<lparr>meshes := (meshes w')(c := c')\<rparr>))"

fun setVelocityMaterial_loop ::
  "nat list \<Rightarrow> VelocityPass \<times> 'p world \<Rightarrow> VelocityPass \<times> 'p world" where
  "setVelocityMaterial_loop [] tw = tw"
| "setVelocityMaterial_loop (c # cs) tw = setVelocityMaterial_loop cs (setVelocityMaterial c tw)"

text \<open>
  \<open>getVisibleChildren\<close> (Utils.js) is not part of the sources at hand; the list of meshes
  it returns for the scene is the parameter \<open>visibleChildren\<close>, and the function itself
  is a parameter \<open>getVisibleChildren\<close> of \<open>render\<close>, applied to the meshes of the scene.
\<close>

definition setVelocityMaterialInScene ::
  "nat list \<Rightarrow> VelocityPass \<times> 'p world \<Rightarrow> VelocityPass \<times> 'p world" where
  "setVelocityMaterialInScene visibleChildren tw =
     (let this = (fst tw)\<lparr>visibleMeshes := visibleChildren\<rparr>
      in setVelocityMaterial_loop (visibleMeshes this) (this, snd tw))"

text \<open>
  The loop of \<open>unsetVelocityMaterialInScene\<close>; \<open>this.cachedMaterials.get(c)[0]\<close> throws
  when the mesh has no cache entry.
\<close>

fun unsetVelocityMaterial_loop ::
  "nat list \<Rightarrow> VelocityPass \<Rightarrow> 'p world \<Rightarrow> error + 'p world" where
  "unsetVelocityMaterial_loop [] this w = Inr w"
| "unsetVelocityMaterial_loop (c # cs) this w =
     (let w1 = w\<lparr>meshes := (meshes w)(c := (meshes w c)\<lparr>visible := True\<rparr>)\<rparr>
      in case cachedMaterials this c of
           None \<Rightarrow> Inl TypeError
         | Some (cachedOriginalMaterial, velocityMaterial) \<Rightarrow>
             unsetVelocityMaterial_loop cs this
               (w1\<lparr>meshes := (meshes w1)(c := (meshes w1 c)\<lparr>material := cachedOriginalMaterial\<rparr>)\<rparr>))"

definition unsetVelocityMaterialInScene :: "VelocityPass \<Rightarrow> 'p world \<Rightarrow> error + 'p world" where
  "unsetVelocityMaterialInScene this w = unsetVelocityMaterial_loop (visibleMeshes this) this w"

text \<open>
  The program run by a draw. The copy material writes input \<open>k\<close> to attachment \<open>k\<close>;
  every other material, and a copy from an unbound input, is the parameter \<open>sh\<close>.
\<close>

definition program ::
  "(snapshot \<Rightarrow> (tex \<Rightarrow> 'p) \<Rightarrow> nat \<Rightarrow> 'p) \<Rightarrow> snapshot \<Rightarrow> (tex \<Rightarrow> 'p) \<Rightarrow> nat \<Rightarrow> 'p" where
  "program sh u mem k =
     (case u of
        CopySnap cu \<Rightarrow>
          (case at_index [cp_inputTexture cu, inputTexture2 cu, inputTexture3 cu] k of
             Some (Some t) \<Rightarrow> mem t
           | _ \<Rightarrow> sh u mem k)
      | _ \<Rightarrow> sh u mem k)"

definition VelocityPass_render ::
  "(snapshot \<Rightarrow> (tex \<Rightarrow> 'p) \<Rightarrow> nat \<Rightarrow> 'p) \<Rightarrow> ((nat \<Rightarrow> Mesh) \<Rightarrow> nat list) \<Rightarrow>
   VelocityPass \<times> 'p world \<Rightarrow> error + VelocityPass \<times> 'p world" where
  "VelocityPass_render sh getVisibleChildren tw =
     (let this = fst tw; w = snd tw; cam = vp_camera this
      in if \<not> hasViewOffset (cameras w cam) then Inl TypeError
         else
           let w1 = w\<lparr>cameras := (cameras w)(cam := clearViewOffset (cameras w cam))\<rparr>;
               tw2 = setVelocityMaterialInScene (getVisibleChildren (meshes w1)) (this, w1);
               this2 = fst tw2; w2 = snd tw2;
               background0 = background w2;
               w3 = w2\<lparr>background := backgroundColor\<rparr>;
               w4 = w3\<lparr>gpu := setRenderTarget (mrt_texture (vp_renderTarget this2)) (gpu w3)\<rparr>;
               w5 = w4\<lparr>gpu := render_draw (program sh)
                        (GeometrySnap (cameras w4 cam) (background w4)
                           (map (\<lambda>c. (c, meshes w4 c)) (visibleMeshes this2)))
                        (gpu w4)\<rparr>;
               w6 = w5\<lparr>background := background0\<rparr>
           in case unsetVelocityMaterialInScene this2 w6 of
                Inl e \<Rightarrow> Inl e
              | Inr w7 \<Rightarrow>
                  Inr (this2,
                       (case view (cameras w7 cam) of
                          None \<Rightarrow> w7
                        | Some v \<Rightarrow>
                            w7\<lparr>cameras := (cameras w7)
                                 (cam := (cameras w7 cam)\<lparr>view := Some (v\<lparr>enabled := True\<rparr>)\<rparr>)\<rparr>)))"

section \<open>CopyPass\<close>

record CopyPass =
  cp_uniforms :: copy_uniforms
  cp_renderTarget :: WebGLMultipleRenderTargets

text \<open>
  Modelled from the spec: \<open>CopyPass\<close> (pass/CopyPass.js is not among the sources at hand),
  the History/Buffer Copy Utility that snapshots N designated "current" buffers into N
  "history" slots. From its use in the constructor and in \<open>render\<close> of TemporalResolvePass:
  \<open>new CopyPass(n)\<close> owns a render target with \<open>n\<close> textures of its own, its material has
  the uniforms \<open>inputTexture\<close>, \<open>inputTexture2\<close>, \<open>inputTexture3\<close>, initially unbound, and
  \<open>render\<close> draws the copy material into the pass's own render target.
\<close>

definition CopyPass_new :: "nat \<Rightarrow> 'p world \<Rightarrow> CopyPass \<times> 'p world" where
  "CopyPass_new n w =
     (case new_textures n w of (ts, w') \<Rightarrow>
        (\<lparr>cp_uniforms = \<lparr>cp_inputTexture = None, inputTexture2 = None, inputTexture3 = None\<rparr>,
          cp_renderTarget = \<lparr>mrt_texture = ts, mrt_width = 1, mrt_height = 1\<rparr>\<rparr>, w'))"

definition CopyPass_render ::
  "(snapshot \<Rightarrow> (tex \<Rightarrow> 'p) \<Rightarrow> nat \<Rightarrow> 'p) \<Rightarrow> CopyPass \<Rightarrow> 'p world \<Rightarrow> 'p world" where
  "CopyPass_render sh this w =
     (let r1 = setRenderTarget (mrt_texture (cp_renderTarget this)) (gpu w)
      in w\<lparr>gpu := render_draw (program sh) (CopySnap (cp_uniforms this)) r1\<rparr>)"

section \<open>TemporalResolvePass\<close>

text \<open>The two options of the constructor that decide which buffers exist and which draws run.\<close>

record options =
  opt_renderTarget :: "WebGLRenderTarget option"
  opt_renderVelocity :: bool

definition defaultTemporalResolvePassOptions :: options where
  "defaultTemporalResolvePassOptions = \<lparr>opt_renderTarget = None, opt_renderVelocity = True\<rparr>"

record TemporalResolvePass =
  tr_camera :: nat
  velocityPass :: VelocityPass
  renderTarget :: WebGLRenderTarget
  fullscreenMaterial :: resolve_uniforms
  copyPass :: CopyPass
  this_accumulatedTexture :: "tex option"
  renderVelocity :: bool
  r2Sequence :: "(real \<times> real) list"
  pointsIndex :: nat

definition new_WebGLRenderTarget :: "'p world \<Rightarrow> WebGLRenderTarget \<times> 'p world" where
  "new_WebGLRenderTarget w =
     (\<lparr>rt_texture = next_id w, rt_width = 1, rt_height = 1\<rparr>, w\<lparr>next_id := next_id w + 1\<rparr>)"

definition TemporalResolvePass_new ::
  "nat \<Rightarrow> VelocityPass \<Rightarrow> options \<Rightarrow> 'p world \<Rightarrow> TemporalResolvePass \<times> 'p world" where
  "TemporalResolvePass_new cam vp opts w =
     (case (case opt_renderTarget opts of
              Some rt \<Rightarrow> (rt, w)
            | None \<Rightarrow> new_WebGLRenderTarget w) of
        (rt, w1) \<Rightarrow>
          (case CopyPass_new 3 w1 of
             (cp, w2) \<Rightarrow>
               (\<lparr>tr_camera = cam,
                 velocityPass = vp,
                 renderTarget = rt,
                 fullscreenMaterial =
                   \<lparr>accumulatedTexture = at_index (mrt_texture (cp_renderTarget cp)) 0,
                    lastDepthTexture = at_index (mrt_texture (cp_renderTarget cp)) 1,
                    lastNormalTexture = at_index (mrt_texture (cp_renderTarget cp)) 2,
                    velocityTexture = VelocityPass_texture vp,
                    tr_depthTexture = VelocityPass_depthTexture vp,
                    tr_normalTexture = VelocityPass_normalTexture vp,
                    prevCameraMatrixWorld = matrixWorld (cameras w2 cam),
                    prevViewMatrix = matrixWorldInverse (cameras w2 cam)\<rparr>,
                 copyPass = cp,
                 this_accumulatedTexture = at_index (mrt_texture (cp_renderTarget cp)) 0,
                 renderVelocity = opt_renderVelocity opts,
                 r2Sequence = [],
                 pointsIndex = 0\<rparr>, w2)))"

definition TemporalResolvePass_texture :: "TemporalResolvePass \<Rightarrow> tex" where
  "TemporalResolvePass_texture this = rt_texture (renderTarget this)"

text \<open>
  \<open>TemporalResolvePass.render\<close>, one definition for each of its four parts: the optional
  velocity pass, the resolve draw into the pass's own render target, the copy that saves
  the history, and the update of the previous camera matrices.
\<close>

definition render_velocity ::
  "(snapshot \<Rightarrow> (tex \<Rightarrow> 'p) \<Rightarrow> nat \<Rightarrow> 'p) \<Rightarrow> ((nat \<Rightarrow> Mesh) \<Rightarrow> nat list) \<Rightarrow>
   TemporalResolvePass \<times> 'p world \<Rightarrow> error + TemporalResolvePass \<times> 'p world" where
  "render_velocity sh getVisibleChildren tw =
     (if renderVelocity (fst tw)
      then (case VelocityPass_render sh getVisibleChildren (velocityPass (fst tw), snd tw) of
              Inl e \<Rightarrow> Inl e
            | Inr (vp, w) \<Rightarrow> Inr ((fst tw)\<lparr>velocityPass := vp\<rparr>, w))
      else Inr tw)"

definition resolve_draw ::
  "(snapshot \<Rightarrow> (tex \<Rightarrow> 'p) \<Rightarrow> nat \<Rightarrow> 'p) \<Rightarrow>
   TemporalResolvePass \<times> 'p world \<Rightarrow> TemporalResolvePass \<times> 'p world" where
  "resolve_draw sh tw =
     (let this = fst tw; w = snd tw;
          r1 = setRenderTarget [rt_texture (renderTarget this)] (gpu w)
      in (this, w\<lparr>gpu := render_draw (program sh) (ResolveSnap (fullscreenMaterial this)) r1\<rparr>))"

definition save_history ::
  "(snapshot \<Rightarrow> (tex \<Rightarrow> 'p) \<Rightarrow> nat \<Rightarrow> 'p) \<Rightarrow>
   TemporalResolvePass \<times> 'p world \<Rightarrow> TemporalResolvePass \<times> 'p world" where
  "save_history sh tw =
     (let this = fst tw; w = snd tw;
          cu = (cp_uniforms (copyPass this))
                 \<lparr>cp_inputTexture := Some (TemporalResolvePass_texture this),
                  inputTexture2 := tr_depthTexture (fullscreenMaterial this),
                  inputTexture3 := tr_normalTexture (fullscreenMaterial this)\<rparr>;
          this1 = this\<lparr>copyPass := (copyPass this)\<lparr>cp_uniforms := cu\<rparr>\<rparr>;
          this2 = this1\<lparr>this_accumulatedTexture := cp_inputTexture (cp_uniforms (copyPass this1))\<rparr>
      in (this2, CopyPass_render sh (copyPass this2) w))"

definition save_last_transformations ::
  "TemporalResolvePass \<times> 'p world \<Rightarrow> TemporalResolvePass \<times> 'p world" where
  "save_last_transformations tw =
     (let this = fst tw; w = snd tw
      in (this\<lparr>fullscreenMaterial := (fullscreenMaterial this)
                 \<lparr>prevCameraMatrixWorld := matrixWorld (cameras w (tr_camera this)),
                  prevViewMatrix := matrixWorldInverse (cameras w (tr_camera this))\<rparr>\<rparr>, w))"

definition TemporalResolvePass_render ::
  "(snapshot \<Rightarrow> (tex \<Rightarrow> 'p) \<Rightarrow> nat \<Rightarrow> 'p) \<Rightarrow> ((nat \<Rightarrow> Mesh) \<Rightarrow> nat list) \<Rightarrow>
   TemporalResolvePass \<times> 'p world \<Rightarrow> error + TemporalResolvePass \<times> 'p world" where
  "TemporalResolvePass_render sh getVisibleChildren tw =
     (case render_velocity sh getVisibleChildren tw of
        Inl e \<Rightarrow> Inl e
      | Inr tw1 \<Rightarrow> Inr (save_last_transformations (save_history sh (resolve_draw sh tw1))))"

text \<open>Rendering \<open>n\<close> frames in a row; an exception ends the run.\<close>

fun render_frames ::
  "(snapshot \<Rightarrow> (tex \<Rightarrow> 'p) \<Rightarrow> nat \<Rightarrow> 'p) \<Rightarrow> ((nat \<Rightarrow> Mesh) \<Rightarrow> nat list) \<Rightarrow> nat \<Rightarrow>
   TemporalResolvePass \<times> 'p world \<Rightarrow> error + TemporalResolvePass \<times> 'p world" where
  "render_frames sh g 0 tw = Inr tw"
| "render_frames sh g (Suc n) tw =
     (case render_frames sh g n tw of
        Inl e \<Rightarrow> Inl e
      | Inr tw' \<Rightarrow> TemporalResolvePass_render sh g tw')"

text \<open>
  The buffer slots a draw samples: the textures bound to the uniforms of its material. The
  geometry draw samples no buffer slot of the passes. A draw changes the renderer only.
\<close>

fun reads :: "snapshot \<Rightarrow> tex set" where
  "reads (GeometrySnap c b ms) = {}"
| "reads (ResolveSnap u) =
     set_option (accumulatedTexture u) \<union> set_option (lastDepthTexture u) \<union>
     set_option (lastNormalTexture u) \<union> set_option (velocityTexture u) \<union>
     set_option (tr_depthTexture u) \<union> set_option (tr_normalTexture u)"
| "reads (CopySnap cu) =
     set_option (cp_inputTexture cu) \<union> set_option (inputTexture2 cu) \<union>
     set_option (inputTexture3 cu)"

text \<open>
  How the constructor wires the buffers of the pass: the three history uniforms name the
  three textures of the copy pass's own target, the velocity, depth and normal uniforms name
  the textures of the velocity pass, and the pass's render target, the copy target and the
  velocity target are pairwise different objects.
\<close>

definition wired :: "TemporalResolvePass \<Rightarrow> bool" where
  "wired t =
     (let hs = mrt_texture (cp_renderTarget (copyPass t));
          vs = mrt_texture (vp_renderTarget (velocityPass t));
          r = rt_texture (renderTarget t);
          u = fullscreenMaterial t
      in length hs = 3 \<and> distinct hs \<and>
         accumulatedTexture u = Some (hs ! 0) \<and>
         lastDepthTexture u = Some (hs ! 1) \<and>
         lastNormalTexture u = Some (hs ! 2) \<and>
         velocityTexture u = at_index vs 0 \<and>
         tr_depthTexture u = at_index vs 1 \<and>
         tr_normalTexture u = at_index vs 2 \<and>
         r \<notin> set hs \<and> r \<notin> set vs \<and> set hs \<inter> set vs = {})"

text \<open>The draws that a run adds to the renderer's sequence of draws.\<close>

definition new_draws :: "'p world \<Rightarrow> 'p world \<Rightarrow> (tex list \<times> snapshot) list" where
  "new_draws w w' = drop (length (calls (gpu w))) (calls (gpu w'))"

section \<open>Examples\<close>

text \<open>A concrete pass, renderer and filter program used to instantiate the theorems below.\<close>

definition example_DenoisePass :: "real \<Rightarrow> DenoisePass" where
  "example_DenoisePass n =
     \<lparr>iterations = n,
      uniforms = \<lparr>inputTexture = Some 7, diffuseTexture = None, depthTexture = None,
                  normalTexture = None, momentsTexture = None, horizontal = True, stepSize = 1\<rparr>,
      renderTargetA = \<lparr>rt_texture = 1, rt_width = 1, rt_height = 1\<rparr>,
      renderTargetB = \<lparr>rt_texture = 2, rt_width = 1, rt_height = 1\<rparr>\<rparr>"

definition example_renderer :: "('u, nat) renderer" where
  "example_renderer = \<lparr>currentTarget = [], vram = (\<lambda>t. 10 * t), calls = []\<rparr>"

definition example_filter :: "denoise_uniforms \<Rightarrow> (tex \<Rightarrow> nat) \<Rightarrow> nat \<Rightarrow> nat" where
  "example_filter u mem k =
     (case inputTexture u of
        None \<Rightarrow> 0
      | Some t \<Rightarrow> mem t + (case stepSize u of enat n \<Rightarrow> n | \<infinity> \<Rightarrow> 0))"

definition example_camera :: camera where
  "example_camera =
     \<lparr>hasViewOffset = True,
      view = Some \<lparr>enabled = True, fullWidth = 4, fullHeight = 4,
                   offsetX = 1 / 4, offsetY = - (1 / 4), width = 4, height = 4\<rparr>,
      matrixWorld = [1], matrixWorldInverse = [2]\<rparr>"

definition example_world :: "nat world" where
  "example_world =
     \<lparr>cameras = (\<lambda>c. example_camera),
      meshes = (\<lambda>c. \<lparr>material = 100 + c, visible = True, constructor_name = ''Mesh''\<rparr>),
      materials = (\<lambda>m. \<lparr>mat_visible = True, depthWrite = True, depthTest = True\<rparr>),
      background = OtherBackground 5,
      next_id = 1000,
      gpu = example_renderer\<rparr>"

definition example_getVisibleChildren :: "(nat \<Rightarrow> Mesh) \<Rightarrow> nat list" where
  "example_getVisibleChildren ms = [0, 1]"

definition example_program :: "snapshot \<Rightarrow> (tex \<Rightarrow> nat) \<Rightarrow> nat \<Rightarrow> nat" where
  "example_program u mem k =
     (case u of GeometrySnap c b ms \<Rightarrow> 60 + k | ResolveSnap r \<Rightarrow> 50 | CopySnap cu \<Rightarrow> 0)"

text \<open>A velocity pass and a temporal resolve pass built by the constructors, default options.\<close>

definition example_VelocityPass :: "VelocityPass \<times> nat world" where
  "example_VelocityPass = VelocityPass_new 0 example_world"

definition example_TemporalResolvePass :: "TemporalResolvePass \<times> nat world" where
  "example_TemporalResolvePass =
     TemporalResolvePass_new 0 (fst example_VelocityPass) defaultTemporalResolvePassOptions
       (snd example_VelocityPass)"

text \<open>
  The same pass after the camera has moved: the uniforms still hold the matrices that the
  constructor stored, the camera has new ones.
\<close>

definition example_moved_camera :: "TemporalResolvePass \<times> nat world" where
  "example_moved_camera =
     (fst example_TemporalResolvePass,
      (snd example_TemporalResolvePass)
        \<lparr>cameras := (\<lambda>c. example_camera\<lparr>matrixWorld := [3], matrixWorldInverse := [4]\<rparr>)\<rparr>)"

section \<open>Properties of DenoisePass\<close>

lemma half_pass_consts:
  "half_pass sh inp i ss pr = (ss', p', r') \<Longrightarrow>
     iterations p' = iterations (fst pr) \<and> renderTargetA p' = renderTargetA (fst pr)
     \<and> renderTargetB p' = renderTargetB (fst pr)"
  by (auto simp: half_pass_def Let_def)

lemma loop_guard: "(real i < x) = (i < nat \<lceil>x\<rceil>)"
proof -
  have "(real i < x) = (int i < \<lceil>x\<rceil>)" by (simp add: less_ceiling_iff)
  also have "\<dots> = (i < nat \<lceil>x\<rceil>)" by linarith
  finally show ?thesis .
qed

lemma render_loop_done:
  "\<not> i < nat \<lceil>2 * iterations (fst pr)\<rceil> \<Longrightarrow> render_loop sh inp i ss pr = pr"
  by (subst render_loop.simps) (simp add: loop_guard)

lemma render_loop_step:
  "i < nat \<lceil>2 * iterations (fst pr)\<rceil> \<Longrightarrow> half_pass sh inp i ss pr = (ss', pr') \<Longrightarrow>
     render_loop sh inp i ss pr = render_loop sh inp (i + 1) ss' pr'"
  by (subst render_loop.simps) (simp add: loop_guard)

lemma render_draw_written:
  "calls (render_draw sh u (setRenderTarget ts r)) = calls r @ [(ts, u)] \<and>
   vram (render_draw sh u (setRenderTarget ts r)) = written sh (vram r) (ts, u) \<and>
   currentTarget (render_draw sh u (setRenderTarget ts r)) = ts"
  by (simp add: render_draw_def setRenderTarget_def written_def cong: option.case_cong)

text \<open>
  The draws issued by the loop from index \<open>i\<close> on, in closed form, and the memory they
  leave. The carried step size matters only at an odd index, where it is the one set by the
  preceding even round.
\<close>

lemma render_loop_run:
  "(odd i \<longrightarrow> ss = pow2 (i div 2)) \<Longrightarrow>
   calls (snd (render_loop sh inp i ss pr)) =
     calls (snd pr) @
     map (\<lambda>j. ([rt_texture (if even j then renderTargetA (fst pr) else renderTargetB (fst pr))],
               (uniforms (fst pr))\<lparr>horizontal := even j, stepSize := pow2 (j div 2),
                  inputTexture := (if even j
                     then (if j = 0 then inp else Some (rt_texture (renderTargetB (fst pr))))
                     else Some (rt_texture (renderTargetA (fst pr))))\<rparr>))
         [i..<nat \<lceil>2 * iterations (fst pr)\<rceil>] \<and>
   vram (snd (render_loop sh inp i ss pr)) =
     foldl (written sh) (vram (snd pr))
       (map (\<lambda>j. ([rt_texture (if even j then renderTargetA (fst pr) else renderTargetB (fst pr))],
               (uniforms (fst pr))\<lparr>horizontal := even j, stepSize := pow2 (j div 2),
                  inputTexture := (if even j
                     then (if j = 0 then inp else Some (rt_texture (renderTargetB (fst pr))))
                     else Some (rt_texture (renderTargetA (fst pr))))\<rparr>))
         [i..<nat \<lceil>2 * iterations (fst pr)\<rceil>])"
proof (induction sh inp i ss pr rule: render_loop.induct)
  case (1 sh inp i ss pr)
  let ?n = "nat \<lceil>2 * iterations (fst pr)\<rceil>"
  let ?f = "\<lambda>j. ([rt_texture (if even j then renderTargetA (fst pr) else renderTargetB (fst pr))],
               (uniforms (fst pr))\<lparr>horizontal := even j, stepSize := pow2 (j div 2),
                  inputTexture := (if even j
                     then (if j = 0 then inp else Some (rt_texture (renderTargetB (fst pr))))
                     else Some (rt_texture (renderTargetA (fst pr))))\<rparr>)"
  show ?case
  proof (cases "i < ?n")
    case False
    then have "?n \<le> i" by (rule leI [THEN le_trans, OF _ order_refl])
    then have e: "[i..<?n] = []" by (rule upt_conv_Nil)
    show ?thesis unfolding render_loop_done [OF False] e by simp
  next
    case True
    then have g: "real i < 2 * iterations (fst pr)" by (simp add: loop_guard)
    obtain ss' p' r' where hp: "half_pass sh inp i ss pr = (ss', p', r')"
      by (cases "half_pass sh inp i ss pr") auto
    have ss': "odd (i + 1) \<longrightarrow> ss' = pow2 ((i + 1) div 2)"
      using hp by (auto simp: half_pass_def Let_def)
    have u: "uniforms p' = (uniforms (fst pr))\<lparr>horizontal := even i, stepSize := ss',
         inputTexture := (if even i
                     then (if i = 0 then inp else Some (rt_texture (renderTargetB (fst pr))))
                     else Some (rt_texture (renderTargetA (fst pr))))\<rparr>"
      using hp by (auto simp: half_pass_def Let_def)
    have r': "r' = render_draw sh (snd (?f i)) (setRenderTarget (fst (?f i)) (snd pr))"
      using hp "1.prems" by (auto simp: half_pass_def Let_def)
    have c: "calls r' = calls (snd pr) @ [?f i]" "vram r' = written sh (vram (snd pr)) (?f i)"
      unfolding r' by (simp_all only: render_draw_written prod.collapse)
    note k = half_pass_consts [OF hp]
    have eq: "render_loop sh inp i ss pr = render_loop sh inp (i + 1) ss' (p', r')"
      by (rule render_loop_step [OF True hp])
    have ih: "calls (snd (render_loop sh inp (i + 1) ss' (p', r'))) =
                calls r' @ map ?f [i + 1..<?n] \<and>
              vram (snd (render_loop sh inp (i + 1) ss' (p', r'))) =
                foldl (written sh) (vram r') (map ?f [i + 1..<?n])"
      using "1.IH" [OF g hp [symmetric] ss'] k by (simp add: u cong: if_cong)
    have up: "[i..<?n] = i # [i + 1..<?n]" using True by (simp add: upt_conv_Cons)
    show ?thesis
      unfolding eq up using ih c by simp
  qed
qed

lemma render_loop_pass:
  "iterations (fst (render_loop sh inp i ss pr)) = iterations (fst pr) \<and>
   renderTargetA (fst (render_loop sh inp i ss pr)) = renderTargetA (fst pr) \<and>
   renderTargetB (fst (render_loop sh inp i ss pr)) = renderTargetB (fst pr)"
proof (induction sh inp i ss pr rule: render_loop.induct)
  case (1 sh inp i ss pr)
  show ?case
  proof (cases "i < nat \<lceil>2 * iterations (fst pr)\<rceil>")
    case False
    then show ?thesis by (simp add: render_loop_done)
  next
    case True
    then have g: "real i < 2 * iterations (fst pr)" by (simp add: loop_guard)
    obtain ss' p' r' where hp: "half_pass sh inp i ss pr = (ss', p', r')"
      by (cases "half_pass sh inp i ss pr") auto
    have "render_loop sh inp i ss pr = render_loop sh inp (i + 1) ss' (p', r')"
      by (rule render_loop_step [OF True hp])
    then show ?thesis
      using "1.IH" [OF g hp [symmetric]] half_pass_consts [OF hp] by simp
  qed
qed

lemma render_loop_target:
  "currentTarget (snd (render_loop sh inp i ss pr)) =
     (if i < nat \<lceil>2 * iterations (fst pr)\<rceil>
      then [rt_texture (if even (nat \<lceil>2 * iterations (fst pr)\<rceil> - 1)
                        then renderTargetA (fst pr) else renderTargetB (fst pr))]
      else currentTarget (snd pr))"
proof (induction sh inp i ss pr rule: render_loop.induct)
  case (1 sh inp i ss pr)
  let ?n = "nat \<lceil>2 * iterations (fst pr)\<rceil>"
  show ?case
  proof (cases "i < ?n")
    case False
    then show ?thesis by (simp add: render_loop_done)
  next
    case True
    then have g: "real i < 2 * iterations (fst pr)" by (simp add: loop_guard)
    obtain ss' p' r' where hp: "half_pass sh inp i ss pr = (ss', p', r')"
      by (cases "half_pass sh inp i ss pr") auto
    note k = half_pass_consts [OF hp]
    have t: "currentTarget r' =
        [rt_texture (if even i then renderTargetA (fst pr) else renderTargetB (fst pr))]"
      using hp by (auto simp: half_pass_def Let_def render_draw_def setRenderTarget_def)
    have eq: "render_loop sh inp i ss pr = render_loop sh inp (i + 1) ss' (p', r')"
      by (rule render_loop_step [OF True hp])
    have last: "\<not> i + 1 < ?n \<Longrightarrow> i = ?n - 1" using True by simp
    show ?thesis
      unfolding eq using "1.IH" [OF g hp [symmetric]] k t True last by auto
  qed
qed

text \<open>
  The half-passes of one \<open>render\<close>, the memory it leaves and the target that is bound
  when it returns, read off the closed form of the loop.
\<close>

lemma half_passes_eq:
  "half_passes sh pr =
     map (\<lambda>j. ([rt_texture (if even j then renderTargetA (fst pr) else renderTargetB (fst pr))],
               (uniforms (fst pr))\<lparr>horizontal := even j, stepSize := pow2 (j div 2),
                  inputTexture := (if even j
                     then (if j = 0 then inputTexture (uniforms (fst pr))
                           else Some (rt_texture (renderTargetB (fst pr))))
                     else Some (rt_texture (renderTargetA (fst pr))))\<rparr>))
         [0..<nat \<lceil>2 * iterations (fst pr)\<rceil>]"
  by (simp add: half_passes_def DenoisePass_render_def Let_def render_loop_run)

lemma half_passes_length:
  "length (half_passes sh pr) = nat \<lceil>2 * iterations (fst pr)\<rceil>"
  by (simp add: half_passes_eq)

lemma half_passes_nth:
  "i < nat \<lceil>2 * iterations (fst pr)\<rceil> \<Longrightarrow>
   half_passes sh pr ! i =
     ([rt_texture (if even i then renderTargetA (fst pr) else renderTargetB (fst pr))],
      (uniforms (fst pr))\<lparr>horizontal := even i, stepSize := pow2 (i div 2),
         inputTexture := (if even i
            then (if i = 0 then inputTexture (uniforms (fst pr))
                  else Some (rt_texture (renderTargetB (fst pr))))
            else Some (rt_texture (renderTargetA (fst pr))))\<rparr>)"
  unfolding half_passes_eq by (simp add: nth_map_upt del: upt_Suc)

lemma render_vram:
  "vram (snd (DenoisePass_render sh pr)) =
     foldl (written sh) (vram (snd pr)) (half_passes sh pr)"
  unfolding half_passes_eq
  by (simp add: DenoisePass_render_def Let_def render_loop_run)

lemma render_pass:
  "iterations (fst (DenoisePass_render sh pr)) = iterations (fst pr) \<and>
   renderTargetA (fst (DenoisePass_render sh pr)) = renderTargetA (fst pr) \<and>
   renderTargetB (fst (DenoisePass_render sh pr)) = renderTargetB (fst pr)"
  by (simp add: DenoisePass_render_def Let_def render_loop_pass)

lemma render_target:
  "0 < nat \<lceil>2 * iterations (fst pr)\<rceil> \<Longrightarrow>
   currentTarget (snd (DenoisePass_render sh pr)) =
     [rt_texture (if even (nat \<lceil>2 * iterations (fst pr)\<rceil> - 1)
                  then renderTargetA (fst pr) else renderTargetB (fst pr))]"
  by (simp add: DenoisePass_render_def Let_def render_loop_target)

lemma whole_count:
  assumes "x \<in> \<int>" "1 \<le> (x::real)"
  shows "\<exists>k. nat \<lceil>2 * x\<rceil> = 2 * k \<and> 0 < k"
proof -
  from assms(1) obtain z :: int where z: "x = of_int z" by (auto elim: Ints_cases)
  with assms(2) have "1 \<le> z" by simp
  have "2 * x = of_int (2 * z)" by (simp add: z)
  then have "\<lceil>2 * x\<rceil> = 2 * z" by (simp only: ceiling_of_int)
  then have "nat \<lceil>2 * x\<rceil> = 2 * nat z" using \<open>1 \<le> z\<close> by simp
  moreover have "0 < nat z" using \<open>1 \<le> z\<close> by simp
  ultimately show ?thesis by blast
qed

lemma written_single:
  "written sh m ([t], u) = m(t := sh u m 0)"
  by (auto simp: written_def fun_eq_iff)

text \<open>
  Claim C1 as stated (exactly \<open>2 * iterations\<close> half-passes for every \<open>iterations \<ge> 1\<close>,
  step size \<open>2 ^ k\<close> in half-passes \<open>2 * k\<close> and \<open>2 * k + 1\<close>) fails. \<open>iterations\<close> is a
  number that the pass never validates: with \<open>iterations = 1.25\<close> the loop runs for
  \<open>i = 0, 1, 2\<close>, three half-passes and not \<open>2.5\<close>. The step size is a double: with
  \<open>iterations = 1025\<close>, half-pass 2048 computes \<open>2 ** 1024\<close>, which is \<open>Infinity\<close>.
\<close>

theorem C1_counterexample:
  "length (half_passes example_filter (example_DenoisePass (5 / 4), example_renderer)) = 3 \<and>
   real (length (half_passes example_filter (example_DenoisePass (5 / 4), example_renderer)))
     \<noteq> 2 * (5 / 4) \<and>
   stepSize (snd (half_passes example_filter (example_DenoisePass 1025, example_renderer) ! 2048))
     = \<infinity> \<and>
   stepSize (snd (half_passes example_filter (example_DenoisePass 1025, example_renderer) ! 2048))
     \<noteq> enat (2 ^ 1024)"
proof -
  have a: "length (half_passes example_filter (example_DenoisePass (5 / 4), example_renderer)) = 3"
    by (simp add: half_passes_length example_DenoisePass_def)
  have "(2048::nat) < nat \<lceil>2 * iterations (fst (example_DenoisePass 1025,
            example_renderer :: (denoise_uniforms, nat) renderer))\<rceil>"
    by (simp add: example_DenoisePass_def)
  from half_passes_nth [OF this, of example_filter]
  have b: "stepSize (snd (half_passes example_filter (example_DenoisePass 1025, example_renderer) ! 2048))
     = \<infinity>"
    by (simp add: pow2_def)
  show ?thesis unfolding a b by simp
qed

text \<open>
  Claim C1, as amended. For every \<open>iterations\<close> from 1 to \<open>2 ^ 52\<close> (the range in which the
  loop counter counts exactly), \<open>DenoisePass.render\<close> performs \<open>\<lceil>2 * iterations\<rceil>\<close>
  half-passes, which is exactly \<open>2 * iterations\<close> whenever that is a whole number;
  half-pass \<open>i\<close> (0-based) is horizontal if and only if \<open>i\<close> is even; the step size
  of half-passes \<open>2 * k\<close> and \<open>2 * k + 1\<close> is \<open>2 ^ k\<close> for \<open>k \<le> 1023\<close> and \<open>Infinity\<close> from
  \<open>k = 1024\<close> on, so it stays fixed within one horizontal/vertical pair and doubles from
  one pair to the next while it is finite.
\<close>

theorem C1_half_pass_schedule:
  assumes it: "1 \<le> iterations (fst pr)" and bound: "iterations (fst pr) \<le> 2 ^ 52"
  shows "length (half_passes sh pr) = nat \<lceil>2 * iterations (fst pr)\<rceil> \<and>
     (2 * iterations (fst pr) \<in> \<int> \<longrightarrow>
        real (length (half_passes sh pr)) = 2 * iterations (fst pr)) \<and>
     (\<forall>i < length (half_passes sh pr).
        horizontal (snd (half_passes sh pr ! i)) = even i \<and>
        stepSize (snd (half_passes sh pr ! i)) =
          (if i div 2 < 1024 then enat (2 ^ (i div 2)) else \<infinity>))"
proof (intro conjI impI allI)
  show "length (half_passes sh pr) = nat \<lceil>2 * iterations (fst pr)\<rceil>"
    by (rule half_passes_length)
  show "real (length (half_passes sh pr)) = 2 * iterations (fst pr)"
    if w: "2 * iterations (fst pr) \<in> \<int>"
  proof -
    from w obtain z :: int where z: "2 * iterations (fst pr) = of_int z"
      by (auto elim: Ints_cases)
    with it have "0 \<le> z" by linarith
    have "\<lceil>2 * iterations (fst pr)\<rceil> = z" unfolding z by (rule ceiling_of_int)
    then show ?thesis using \<open>0 \<le> z\<close> by (simp add: half_passes_length z)
  qed
  show "horizontal (snd (half_passes sh pr ! i)) = even i"
    if "i < length (half_passes sh pr)" for i
    using that by (simp add: half_passes_length half_passes_nth)
  show "stepSize (snd (half_passes sh pr ! i)) =
          (if i div 2 < 1024 then enat (2 ^ (i div 2)) else \<infinity>)"
    if "i < length (half_passes sh pr)" for i
    using that by (simp add: half_passes_length half_passes_nth pow2_def)
qed

theorem C1_half_pass_schedule_witness:
  "1 \<le> iterations (example_DenoisePass 2) \<and> iterations (example_DenoisePass 2) \<le> 2 ^ 52 \<and>
   length (half_passes example_filter (example_DenoisePass 2, example_renderer)) = 4 \<and>
   real (length (half_passes example_filter (example_DenoisePass 2, example_renderer))) = 2 * 2 \<and>
   horizontal (snd (half_passes example_filter (example_DenoisePass 2, example_renderer) ! 2)) \<and>
   \<not> horizontal (snd (half_passes example_filter (example_DenoisePass 2, example_renderer) ! 3)) \<and>
   stepSize (snd (half_passes example_filter (example_DenoisePass 2, example_renderer) ! 2)) = 2 \<and>
   stepSize (snd (half_passes example_filter (example_DenoisePass 2, example_renderer) ! 3)) = 2"
proof -
  let ?pr = "(example_DenoisePass 2, example_renderer :: (denoise_uniforms, nat) renderer)"
  have i2: "iterations (example_DenoisePass 2) = 2" by (simp add: example_DenoisePass_def)
  have it: "iterations (fst ?pr) = 2" by (simp add: example_DenoisePass_def)
  have h: "1 \<le> iterations (fst ?pr)" by (simp add: example_DenoisePass_def)
  have h': "iterations (fst ?pr) \<le> 2 ^ 52" by (simp add: example_DenoisePass_def)
  note t = C1_half_pass_schedule [OF h h', of example_filter, unfolded it]
  from t have a: "length (half_passes example_filter ?pr) = 4" by simp
  have w: "(2::real) * 2 \<in> \<int>" by simp
  from t w have a': "real (length (half_passes example_filter ?pr)) = 2 * 2" by blast
  from t have all: "\<forall>i < length (half_passes example_filter ?pr).
        horizontal (snd (half_passes example_filter ?pr ! i)) = even i \<and>
        stepSize (snd (half_passes example_filter ?pr ! i)) =
          (if i div 2 < 1024 then enat (2 ^ (i div 2)) else \<infinity>)" by blast
  have "(2::nat) < length (half_passes example_filter ?pr)"
       "(3::nat) < length (half_passes example_filter ?pr)" by (simp_all add: a)
  from all [rule_format, OF this(1)] all [rule_format, OF this(2)]
  have b: "horizontal (snd (half_passes example_filter ?pr ! 2)) \<and>
           stepSize (snd (half_passes example_filter ?pr ! 2)) = 2 \<and>
           \<not> horizontal (snd (half_passes example_filter ?pr ! 3)) \<and>
           stepSize (snd (half_passes example_filter ?pr ! 3)) = 2"
    by (simp add: numeral_eq_enat)
  from a a' b show ?thesis by (simp add: i2)
qed

text \<open>
  The memory after the first \<open>i + 1\<close> half-passes is the memory after the first \<open>i\<close> with
  the texture of the target of half-pass \<open>i\<close> overwritten by the output of the filter, run
  with the uniforms of half-pass \<open>i\<close> on the memory before it.
\<close>

lemma memory_steps:
  assumes i: "i < length (half_passes sh pr)"
  shows "foldl (written sh) m (take (Suc i) (half_passes sh pr)) =
     (foldl (written sh) m (take i (half_passes sh pr)))
       (rt_texture (if even i then renderTargetA (fst pr) else renderTargetB (fst pr)) :=
          sh (snd (half_passes sh pr ! i)) (foldl (written sh) m (take i (half_passes sh pr))) 0)"
proof -
  from i have n: "i < nat \<lceil>2 * iterations (fst pr)\<rceil>" by (simp add: half_passes_length)
  have e: "half_passes sh pr ! i =
      ([rt_texture (if even i then renderTargetA (fst pr) else renderTargetB (fst pr))],
       snd (half_passes sh pr ! i))"
    by (simp add: half_passes_nth [OF n])
  have "foldl (written sh) m (take (Suc i) (half_passes sh pr)) =
        written sh (foldl (written sh) m (take i (half_passes sh pr))) (half_passes sh pr ! i)"
    by (simp add: take_Suc_conv_app_nth [OF i])
  also have "\<dots> = (foldl (written sh) m (take i (half_passes sh pr)))
       (rt_texture (if even i then renderTargetA (fst pr) else renderTargetB (fst pr)) :=
          sh (snd (half_passes sh pr ! i)) (foldl (written sh) m (take i (half_passes sh pr))) 0)"
    by (subst e) (rule written_single)
  finally show ?thesis .
qed

text \<open>
  Claim C2 as stated (the final result resides in \<open>renderTargetB\<close> for every
  \<open>iterations \<ge> 1\<close>) fails for an \<open>iterations\<close> that is not a whole number: with
  \<open>iterations = 1.5\<close> the loop runs three half-passes, the last one is horizontal and writes
  \<open>renderTargetA\<close> (texture 1), which is the target left bound, while the \<open>texture\<close> getter
  returns the texture of \<open>renderTargetB\<close> (texture 2).
\<close>

theorem C2_counterexample:
  "fst (last (half_passes example_filter (example_DenoisePass (3 / 2), example_renderer))) = [1] \<and>
   currentTarget (snd (DenoisePass_render example_filter
       (example_DenoisePass (3 / 2), example_renderer))) = [1] \<and>
   DenoisePass_texture (fst (DenoisePass_render example_filter
       (example_DenoisePass (3 / 2), example_renderer))) = 2"
proof -
  let ?pr = "(example_DenoisePass (3 / 2), example_renderer :: (denoise_uniforms, nat) renderer)"
  have it: "iterations (example_DenoisePass (3 / 2)) = 3 / 2"
    by (simp add: example_DenoisePass_def)
  have n: "nat \<lceil>2 * iterations (fst ?pr)\<rceil> = 3" by (simp add: it)
  have l: "length (half_passes example_filter ?pr) = 3"
    unfolding half_passes_length n ..
  then have ne: "half_passes example_filter ?pr \<noteq> []" by auto
  have "(2::nat) < nat \<lceil>2 * iterations (fst ?pr)\<rceil>" unfolding n by simp
  from half_passes_nth [OF this, of example_filter]
  have a: "fst (last (half_passes example_filter ?pr)) = [1]"
    unfolding last_conv_nth [OF ne] l by (simp add: example_DenoisePass_def)
  have "0 < nat \<lceil>2 * iterations (fst ?pr)\<rceil>" unfolding n by simp
  from render_target [OF this, of example_filter]
  have b: "currentTarget (snd (DenoisePass_render example_filter ?pr)) = [1]"
    unfolding n by (simp add: example_DenoisePass_def)
  have c: "DenoisePass_texture (fst (DenoisePass_render example_filter ?pr)) = 2"
    by (simp add: DenoisePass_texture_def render_pass example_DenoisePass_def)
  from a b c show ?thesis by simp
qed

text \<open>
  Claim C2, as amended. For every \<open>iterations\<close> from 1 to \<open>2 ^ 52\<close> (the range in which the
  loop counter counts exactly), every horizontal half-pass draws into \<open>renderTargetA\<close>,
  reading the external input on the first half-pass and the texture of \<open>renderTargetB\<close>
  otherwise, and every vertical half-pass reads the texture of \<open>renderTargetA\<close> and draws
  into \<open>renderTargetB\<close>. Buffer memory evolves accordingly:
  half-pass \<open>i\<close> overwrites the texture of its target with the output of the filter on the
  memory left by half-pass \<open>i - 1\<close> and changes nothing else, and the memory after the last
  half-pass is the memory \<open>render\<close> returns; the target of the last half-pass is the
  target left bound. When \<open>iterations\<close> is a whole number (odd or
  even), the last half-pass draws into \<open>renderTargetB\<close>, which is the target left bound and
  the buffer the \<open>texture\<close> getter returns, and that buffer holds the output of the last
  half-pass. The getter returns the texture of \<open>renderTargetB\<close> in every case.
\<close>

theorem C2_ping_pong:
  assumes it: "1 \<le> iterations (fst pr)" and bound: "iterations (fst pr) \<le> 2 ^ 52"
  shows "(\<forall>i < length (half_passes sh pr).
        (even i \<longrightarrow>
           fst (half_passes sh pr ! i) = [rt_texture (renderTargetA (fst pr))] \<and>
           inputTexture (snd (half_passes sh pr ! i)) =
             (if i = 0 then inputTexture (uniforms (fst pr))
              else Some (rt_texture (renderTargetB (fst pr))))) \<and>
        (odd i \<longrightarrow>
           fst (half_passes sh pr ! i) = [rt_texture (renderTargetB (fst pr))] \<and>
           inputTexture (snd (half_passes sh pr ! i)) = Some (rt_texture (renderTargetA (fst pr))))) \<and>
     (\<exists>M. M 0 = vram (snd pr) \<and>
          (\<forall>i < length (half_passes sh pr).
             M (Suc i) =
               (M i)(rt_texture (if even i then renderTargetA (fst pr) else renderTargetB (fst pr)) :=
                       sh (snd (half_passes sh pr ! i)) (M i) 0)) \<and>
          vram (snd (DenoisePass_render sh pr)) = M (length (half_passes sh pr)) \<and>
          (iterations (fst pr) \<in> \<int> \<longrightarrow>
             vram (snd (DenoisePass_render sh pr)) (DenoisePass_texture (fst (DenoisePass_render sh pr))) =
               sh (snd (last (half_passes sh pr))) (M (length (half_passes sh pr) - 1)) 0)) \<and>
     (iterations (fst pr) \<in> \<int> \<longrightarrow>
        half_passes sh pr \<noteq> [] \<and>
        fst (last (half_passes sh pr)) = [DenoisePass_texture (fst (DenoisePass_render sh pr))] \<and>
        currentTarget (snd (DenoisePass_render sh pr)) =
          [DenoisePass_texture (fst (DenoisePass_render sh pr))]) \<and>
     half_passes sh pr \<noteq> [] \<and>
     currentTarget (snd (DenoisePass_render sh pr)) = fst (last (half_passes sh pr)) \<and>
     DenoisePass_texture (fst (DenoisePass_render sh pr)) = rt_texture (renderTargetB (fst pr))"
proof -
  let ?hp = "half_passes sh pr"
  let ?n = "nat \<lceil>2 * iterations (fst pr)\<rceil>"
  let ?A = "rt_texture (renderTargetA (fst pr))" and ?B = "rt_texture (renderTargetB (fst pr))"
  define M where "M i = foldl (written sh) (vram (snd pr)) (take i ?hp)" for i
  have len: "length ?hp = ?n" by (rule half_passes_length)
  have tex: "DenoisePass_texture (fst (DenoisePass_render sh pr)) = ?B"
    by (simp add: DenoisePass_texture_def render_pass)
  have p1: "(even i \<longrightarrow>
           fst (?hp ! i) = [?A] \<and>
           inputTexture (snd (?hp ! i)) =
             (if i = 0 then inputTexture (uniforms (fst pr)) else Some ?B)) \<and>
        (odd i \<longrightarrow>
           fst (?hp ! i) = [?B] \<and> inputTexture (snd (?hp ! i)) = Some ?A)"
    if "i < length ?hp" for i
    using that by (simp add: len half_passes_nth)
  have m0: "M 0 = vram (snd pr)" by (simp add: M_def)
  have ms: "M (Suc i) =
               (M i)(rt_texture (if even i then renderTargetA (fst pr) else renderTargetB (fst pr)) :=
                       sh (snd (?hp ! i)) (M i) 0)"
    if "i < length ?hp" for i
    unfolding M_def by (rule memory_steps [OF that])
  have mn: "vram (snd (DenoisePass_render sh pr)) = M (length ?hp)"
    by (simp add: M_def render_vram)
  have whole: "?hp \<noteq> [] \<and> odd (length ?hp - 1) \<and> length ?hp - 1 < length ?hp"
    if w: "iterations (fst pr) \<in> \<int>"
  proof -
    from whole_count [OF w it] obtain k where k: "?n = 2 * k" "0 < k" by blast
    then have "odd (?n - 1)" "?n - 1 < ?n" by simp_all
    moreover have "?hp \<noteq> []" using k len by auto
    ultimately show ?thesis by (simp add: len)
  qed
  have fin: "vram (snd (DenoisePass_render sh pr)) (DenoisePass_texture (fst (DenoisePass_render sh pr))) =
               sh (snd (last ?hp)) (M (length ?hp - 1)) 0"
    if w: "iterations (fst pr) \<in> \<int>"
  proof -
    from whole [OF w] have ne: "?hp \<noteq> []" and od: "odd (length ?hp - 1)"
      and lt: "length ?hp - 1 < length ?hp" by simp_all
    have s: "Suc (length ?hp - 1) = length ?hp" using lt by simp
    have "M (length ?hp) = (M (length ?hp - 1))(?B := sh (snd (?hp ! (length ?hp - 1))) (M (length ?hp - 1)) 0)"
      using ms [OF lt] od by (simp add: s)
    then show ?thesis
      by (simp add: mn tex last_conv_nth [OF ne])
  qed
  have p3: "?hp \<noteq> [] \<and>
        fst (last ?hp) = [DenoisePass_texture (fst (DenoisePass_render sh pr))] \<and>
        currentTarget (snd (DenoisePass_render sh pr)) =
          [DenoisePass_texture (fst (DenoisePass_render sh pr))]"
    if w: "iterations (fst pr) \<in> \<int>"
  proof -
    from whole [OF w] have ne: "?hp \<noteq> []" and od: "odd (length ?hp - 1)"
      and lt: "length ?hp - 1 < length ?hp" by simp_all
    have a: "fst (last ?hp) = [?B]"
      using p1 [OF lt] od by (simp add: last_conv_nth [OF ne])
    have "0 < length ?hp" using ne by simp
    then have "0 < ?n" unfolding len .
    from render_target [OF this, of sh] od have b: "currentTarget (snd (DenoisePass_render sh pr)) = [?B]"
      by (simp add: len)
    from ne a b show ?thesis by (simp add: tex)
  qed
  have p2: "\<exists>M. M 0 = vram (snd pr) \<and>
          (\<forall>i < length ?hp.
             M (Suc i) =
               (M i)(rt_texture (if even i then renderTargetA (fst pr) else renderTargetB (fst pr)) :=
                       sh (snd (?hp ! i)) (M i) 0)) \<and>
          vram (snd (DenoisePass_render sh pr)) = M (length ?hp) \<and>
          (iterations (fst pr) \<in> \<int> \<longrightarrow>
             vram (snd (DenoisePass_render sh pr)) (DenoisePass_texture (fst (DenoisePass_render sh pr))) =
               sh (snd (last ?hp)) (M (length ?hp - 1)) 0)"
    apply (rule exI [of _ M])
    using m0 ms mn fin by blast
  have p4: "?hp \<noteq> [] \<and> currentTarget (snd (DenoisePass_render sh pr)) = fst (last ?hp)"
  proof -
    from it have "real 0 < 2 * iterations (fst pr)" by simp
    then have pos: "0 < ?n" by (simp only: loop_guard)
    then have ne: "?hp \<noteq> []" using len by auto
    from pos have lt: "?n - 1 < ?n" by simp
    have "fst (last ?hp) = fst (?hp ! (?n - 1))"
      by (simp add: last_conv_nth [OF ne] len)
    also have "\<dots> = [rt_texture (if even (?n - 1) then renderTargetA (fst pr)
                                  else renderTargetB (fst pr))]"
      unfolding half_passes_nth [OF lt] by (rule fst_conv)
    finally show ?thesis using ne render_target [OF pos, of sh] by simp
  qed
  from p1 p2 p3 p4 tex show ?thesis by blast
qed

theorem C2_ping_pong_witness:
  "1 \<le> iterations (example_DenoisePass 1) \<and> iterations (example_DenoisePass 1) \<le> 2 ^ 52 \<and>
   iterations (example_DenoisePass 1) \<in> \<int> \<and>
   fst (half_passes example_filter (example_DenoisePass 1, example_renderer) ! 0) = [1] \<and>
   inputTexture (snd (half_passes example_filter (example_DenoisePass 1, example_renderer) ! 0)) = Some 7 \<and>
   fst (half_passes example_filter (example_DenoisePass 1, example_renderer) ! 1) = [2] \<and>
   inputTexture (snd (half_passes example_filter (example_DenoisePass 1, example_renderer) ! 1)) = Some 1 \<and>
   vram (snd (DenoisePass_render example_filter (example_DenoisePass 1, example_renderer))) 1 = 71 \<and>
   vram (snd (DenoisePass_render example_filter (example_DenoisePass 1, example_renderer))) 2 = 72 \<and>
   vram (snd (DenoisePass_render example_filter (example_DenoisePass 1, example_renderer))) 7 = 70 \<and>
   currentTarget (snd (DenoisePass_render example_filter (example_DenoisePass 1, example_renderer))) = [2] \<and>
   DenoisePass_texture (fst (DenoisePass_render example_filter (example_DenoisePass 1, example_renderer))) = 2"
proof -
  let ?pr = "(example_DenoisePass 1, example_renderer :: (denoise_uniforms, nat) renderer)"
  let ?hp = "half_passes example_filter ?pr"
  let ?out = "DenoisePass_render example_filter ?pr"
  have it: "iterations (example_DenoisePass 1) = 1" by (simp add: example_DenoisePass_def)
  have h: "1 \<le> iterations (fst ?pr)" by (simp add: it)
  have h': "iterations (fst ?pr) \<le> 2 ^ 52" by (simp add: it)
  have w: "iterations (fst ?pr) \<in> \<int>" by (simp add: it)
  have n: "nat \<lceil>2 * iterations (fst ?pr)\<rceil> = 2" by (simp add: it)
  have l: "length ?hp = 2" unfolding half_passes_length n ..
  have i0: "(0::nat) < length ?hp" and i1: "Suc 0 < length ?hp" by (simp_all add: l)
  have j0: "0 < nat \<lceil>2 * iterations (fst ?pr)\<rceil>"
    and j1: "Suc 0 < nat \<lceil>2 * iterations (fst ?pr)\<rceil>" unfolding n by simp_all
  have s0: "stepSize (snd (?hp ! 0)) = 1"
    unfolding half_passes_nth [OF j0] by (simp add: pow2_def one_enat_def)
  have s1: "stepSize (snd (?hp ! Suc 0)) = 1"
    unfolding half_passes_nth [OF j1] by (simp add: pow2_def one_enat_def)
  note t = C2_ping_pong [OF h h', of example_filter]
  from t have sched: "\<forall>i < length ?hp.
        (even i \<longrightarrow>
           fst (?hp ! i) = [rt_texture (renderTargetA (fst ?pr))] \<and>
           inputTexture (snd (?hp ! i)) =
             (if i = 0 then inputTexture (uniforms (fst ?pr))
              else Some (rt_texture (renderTargetB (fst ?pr))))) \<and>
        (odd i \<longrightarrow>
           fst (?hp ! i) = [rt_texture (renderTargetB (fst ?pr))] \<and>
           inputTexture (snd (?hp ! i)) = Some (rt_texture (renderTargetA (fst ?pr))))"
    by (rule conjunct1)
  from sched [rule_format, OF i0]
  have a: "fst (?hp ! 0) = [1] \<and> inputTexture (snd (?hp ! 0)) = Some 7"
    by (simp add: example_DenoisePass_def)
  from sched [rule_format, OF i1]
  have b: "fst (?hp ! Suc 0) = [2] \<and> inputTexture (snd (?hp ! Suc 0)) = Some 1"
    by (simp add: example_DenoisePass_def)
  from t obtain M where m0: "M 0 = vram (snd ?pr)"
    and ms: "\<forall>i < length ?hp.
             M (Suc i) =
               (M i)(rt_texture (if even i then renderTargetA (fst ?pr) else renderTargetB (fst ?pr)) :=
                       example_filter (snd (?hp ! i)) (M i) 0)"
    and mn: "vram (snd ?out) = M (length ?hp)"
    by blast
  have v0: "M 0 = (\<lambda>t. 10 * t)" by (simp add: m0 example_renderer_def)
  from ms [rule_format, OF i0] a s0
  have v1: "M (Suc 0) = (M 0)(1 := 71)"
    by (simp add: example_filter_def example_DenoisePass_def v0 one_enat_def)
  from ms [rule_format, OF i1] b s1
  have v2: "M (Suc (Suc 0)) = (M (Suc 0))(2 := 72)"
    by (simp add: example_filter_def example_DenoisePass_def v1 one_enat_def)
  have "length ?hp = Suc (Suc 0)" by (simp add: l)
  with mn have fin: "vram (snd ?out) = (\<lambda>t. 10 * t)(1 := 71, 2 := 72)"
    by (simp add: v2 v1 v0)
  from t w have c: "currentTarget (snd ?out) = [DenoisePass_texture (fst ?out)]"
    and d: "DenoisePass_texture (fst ?out) = 2"
    by (simp_all add: example_DenoisePass_def)
  from a b c d show ?thesis by (simp add: fin it)
qed



text \<open>
  Claim C10. With \<open>iterations = 0\<close>, \<open>DenoisePass.render\<close> issues no half-pass and writes no
  buffer: the buffer returned by the \<open>texture\<close> getter keeps whatever it held before the call.
\<close>

theorem C10_zero_iterations:
  "iterations (fst pr) = 0 \<Longrightarrow>
     half_passes sh pr = [] \<and>
     calls (snd (DenoisePass_render sh pr)) = calls (snd pr) \<and>
     vram (snd (DenoisePass_render sh pr)) = vram (snd pr) \<and>
     DenoisePass_texture (fst (DenoisePass_render sh pr)) = DenoisePass_texture (fst pr)"
  by (simp add: half_passes_def DenoisePass_render_def Let_def render_loop_done DenoisePass_texture_def)

theorem C10_zero_iterations_witness:
  "half_passes example_filter (example_DenoisePass 0, example_renderer) = [] \<and>
   vram (snd (DenoisePass_render example_filter (example_DenoisePass 0, example_renderer)))
     (DenoisePass_texture (fst (DenoisePass_render example_filter
         (example_DenoisePass 0, example_renderer)))) = 20"
proof -
  have h: "iterations (fst (example_DenoisePass 0, example_renderer :: (denoise_uniforms, nat) renderer)) = 0"
    by (simp add: example_DenoisePass_def)
  from C10_zero_iterations [OF h, of example_filter] show ?thesis
    by (simp add: example_DenoisePass_def example_renderer_def DenoisePass_texture_def)
qed

section \<open>Properties of VelocityPass\<close>

lemma index_of_None: "t \<notin> set xs \<Longrightarrow> index_of t xs = None"
  by (induction xs) auto

lemma index_of_Some: "index_of t xs = Some k \<Longrightarrow> k < length xs \<and> xs ! k = t"
  by (induction xs arbitrary: k) (auto split: if_splits option.splits)

lemma index_of_distinct: "distinct xs \<Longrightarrow> k < length xs \<Longrightarrow> index_of (xs ! k) xs = Some k"
proof (induction xs arbitrary: k)
  case Nil
  then show ?case by simp
next
  case (Cons a xs)
  then show ?case by (cases k) auto
qed

lemma setVelocityMaterial_next_id:
  "next_id (snd tw) \<le> next_id (snd (setVelocityMaterial c tw))"
  by (simp add: setVelocityMaterial_def Let_def new_VelocityMaterial_def
        split: option.splits prod.splits)

lemma setVelocityMaterial_loop_next_id:
  "next_id (snd tw) \<le> next_id (snd (setVelocityMaterial_loop cs tw))"
proof (induction cs arbitrary: tw)
  case Nil
  then show ?case by simp
next
  case (Cons a cs)
  from Cons.IH [of "setVelocityMaterial a tw"] setVelocityMaterial_next_id [of tw a]
  show ?case by simp
qed

lemma setVelocityMaterial_frame:
  "cameras (snd (setVelocityMaterial c tw)) = cameras (snd tw) \<and>
   background (snd (setVelocityMaterial c tw)) = background (snd tw) \<and>
   gpu (snd (setVelocityMaterial c tw)) = gpu (snd tw) \<and>
   vp_camera (fst (setVelocityMaterial c tw)) = vp_camera (fst tw) \<and>
   vp_renderTarget (fst (setVelocityMaterial c tw)) = vp_renderTarget (fst tw) \<and>
   visibleMeshes (fst (setVelocityMaterial c tw)) = visibleMeshes (fst tw)"
  by (simp add: setVelocityMaterial_def Let_def new_VelocityMaterial_def
        split: option.splits prod.splits)

lemma setVelocityMaterial_other:
  "c' \<noteq> c \<Longrightarrow>
     meshes (snd (setVelocityMaterial c tw)) c' = meshes (snd tw) c' \<and>
     cachedMaterials (fst (setVelocityMaterial c tw)) c' = cachedMaterials (fst tw) c'"
  by (simp add: setVelocityMaterial_def Let_def new_VelocityMaterial_def
        split: option.splits prod.splits)

lemma setVelocityMaterial_cached:
  "\<exists>vm. cachedMaterials (fst (setVelocityMaterial c tw)) c = Some (material (meshes (snd tw) c), vm)"
  by (simp add: setVelocityMaterial_def Let_def new_VelocityMaterial_def
        split: option.splits prod.splits)

lemma setVelocityMaterial_name:
  "constructor_name (meshes (snd (setVelocityMaterial c tw)) c') = constructor_name (meshes (snd tw) c')"
  by (simp add: setVelocityMaterial_def Let_def new_VelocityMaterial_def
        split: option.splits prod.splits)

lemma setVelocityMaterial_loop_frame:
  "cameras (snd (setVelocityMaterial_loop cs tw)) = cameras (snd tw) \<and>
   background (snd (setVelocityMaterial_loop cs tw)) = background (snd tw) \<and>
   gpu (snd (setVelocityMaterial_loop cs tw)) = gpu (snd tw) \<and>
   vp_camera (fst (setVelocityMaterial_loop cs tw)) = vp_camera (fst tw) \<and>
   vp_renderTarget (fst (setVelocityMaterial_loop cs tw)) = vp_renderTarget (fst tw) \<and>
   visibleMeshes (fst (setVelocityMaterial_loop cs tw)) = visibleMeshes (fst tw)"
  by (induction cs arbitrary: tw) (simp_all add: setVelocityMaterial_frame)

lemma setVelocityMaterial_loop_other:
  "c' \<notin> set cs \<Longrightarrow>
     meshes (snd (setVelocityMaterial_loop cs tw)) c' = meshes (snd tw) c' \<and>
     cachedMaterials (fst (setVelocityMaterial_loop cs tw)) c' = cachedMaterials (fst tw) c'"
  by (induction cs arbitrary: tw) (simp_all add: setVelocityMaterial_other)

lemma setVelocityMaterial_loop_name:
  "constructor_name (meshes (snd (setVelocityMaterial_loop cs tw)) c') = constructor_name (meshes (snd tw) c')"
  by (induction cs arbitrary: tw) (simp_all add: setVelocityMaterial_name)

lemma setVelocityMaterial_loop_has_entry:
  "c \<in> set cs \<Longrightarrow> cachedMaterials (fst (setVelocityMaterial_loop cs tw)) c \<noteq> None"
proof (induction cs arbitrary: tw)
  case Nil
  then show ?case by simp
next
  case (Cons a cs)
  show ?case
  proof (cases "c \<in> set cs")
    case True
    then show ?thesis using Cons.IH by simp
  next
    case False
    with Cons.prems have "c = a" by simp
    then show ?thesis
      using False setVelocityMaterial_cached [of a tw]
      by (auto simp: setVelocityMaterial_loop_other)
  qed
qed

lemma setVelocityMaterial_loop_cached:
  "distinct cs \<Longrightarrow> c \<in> set cs \<Longrightarrow>
     \<exists>vm. cachedMaterials (fst (setVelocityMaterial_loop cs tw)) c
            = Some (material (meshes (snd tw) c), vm)"
proof (induction cs arbitrary: tw)
  case Nil
  then show ?case by simp
next
  case (Cons a cs)
  show ?case
  proof (cases "c = a")
    case True
    then have "c \<notin> set cs" using Cons.prems by simp
    then show ?thesis
      using True setVelocityMaterial_cached [of a tw]
      by (auto simp: setVelocityMaterial_loop_other)
  next
    case False
    then have "c \<in> set cs" "distinct cs" using Cons.prems by simp_all
    from Cons.IH [OF this(2) this(1), of "setVelocityMaterial a tw"] show ?thesis
      using False by (simp add: setVelocityMaterial_other)
  qed
qed

lemma unsetVelocityMaterial_loop_ok:
  "\<forall>c \<in> set cs. cachedMaterials this c \<noteq> None \<Longrightarrow>
   \<exists>w'. unsetVelocityMaterial_loop cs this w = Inr w' \<and>
        cameras w' = cameras w \<and> background w' = background w \<and> gpu w' = gpu w \<and>
        next_id w' = next_id w \<and>
        (\<forall>c. meshes w' c =
           (if c \<in> set cs
            then (meshes w c)\<lparr>material := fst (the (cachedMaterials this c)), visible := True\<rparr>
            else meshes w c))"
proof (induction cs arbitrary: w)
  case Nil
  then show ?case by simp
next
  case (Cons a cs)
  obtain om vm where a: "cachedMaterials this a = Some (om, vm)"
    using Cons.prems by auto
  let ?w1 = "w\<lparr>meshes := (meshes w)(a := (meshes w a)\<lparr>visible := True, material := om\<rparr>)\<rparr>"
  have "\<forall>c \<in> set cs. cachedMaterials this c \<noteq> None" using Cons.prems by simp
  from Cons.IH [OF this, of ?w1] obtain w' where
    w': "unsetVelocityMaterial_loop cs this ?w1 = Inr w'"
        "cameras w' = cameras ?w1" "background w' = background ?w1" "gpu w' = gpu ?w1"
        "next_id w' = next_id ?w1"
        "\<forall>c. meshes w' c =
           (if c \<in> set cs
            then (meshes ?w1 c)\<lparr>material := fst (the (cachedMaterials this c)), visible := True\<rparr>
            else meshes ?w1 c)"
    by blast
  have "unsetVelocityMaterial_loop (a # cs) this w = Inr w'"
    using a w'(1) by (simp add: Let_def)
  moreover have "\<forall>c. meshes w' c =
           (if c \<in> set (a # cs)
            then (meshes w c)\<lparr>material := fst (the (cachedMaterials this c)), visible := True\<rparr>
            else meshes w c)"
    using w'(6) a by auto
  ultimately show ?case using w'(2,3,4,5) by simp
qed


lemma VelocityPass_render_result:
  assumes api: "hasViewOffset (cameras w (vp_camera this))"
  shows "\<exists>this' w' ms.
     VelocityPass_render sh g (this, w) = Inr (this', w') \<and>
     visibleMeshes this' = g (meshes w) \<and>
     vp_camera this' = vp_camera this \<and>
     vp_renderTarget this' = vp_renderTarget this \<and>
     background w' = background w \<and>
     next_id w \<le> next_id w' \<and>
     cameras w' = (cameras w)(vp_camera this :=
        (case view (cameras w (vp_camera this)) of
           None \<Rightarrow> cameras w (vp_camera this)
         | Some v \<Rightarrow> (cameras w (vp_camera this))\<lparr>view := Some (v\<lparr>enabled := True\<rparr>)\<rparr>)) \<and>
     calls (gpu w') = calls (gpu w) @
        [(mrt_texture (vp_renderTarget this),
          GeometrySnap (clearViewOffset (cameras w (vp_camera this))) backgroundColor ms)] \<and>
     (\<forall>t. t \<notin> set (mrt_texture (vp_renderTarget this)) \<longrightarrow> vram (gpu w') t = vram (gpu w) t) \<and>
     (\<forall>c. c \<notin> set (g (meshes w)) \<longrightarrow> meshes w' c = meshes w c) \<and>
     (\<forall>c \<in> set (g (meshes w)). visible (meshes w' c) \<and>
         constructor_name (meshes w' c) = constructor_name (meshes w c)) \<and>
     (distinct (g (meshes w)) \<longrightarrow>
        (\<forall>c \<in> set (g (meshes w)). material (meshes w' c) = material (meshes w c)))"
proof -
  let ?cam = "vp_camera this"
  let ?cs = "g (meshes w)"
  define w1 where "w1 = w\<lparr>cameras := (cameras w)(?cam := clearViewOffset (cameras w ?cam))\<rparr>"
  define tw2 where "tw2 = setVelocityMaterialInScene (g (meshes w1)) (this, w1)"
  define w3 where "w3 = (snd tw2)\<lparr>background := backgroundColor\<rparr>"
  define w4 where "w4 = w3\<lparr>gpu := setRenderTarget (mrt_texture (vp_renderTarget (fst tw2))) (gpu w3)\<rparr>"
  define snap where "snap = GeometrySnap (cameras w4 ?cam) (background w4)
                           (map (\<lambda>c. (c, meshes w4 c)) (visibleMeshes (fst tw2)))"
  define w5 where "w5 = w4\<lparr>gpu := render_draw (program sh) snap (gpu w4)\<rparr>"
  define w6 where "w6 = w5\<lparr>background := background (snd tw2)\<rparr>"
  have run0: "VelocityPass_render sh g (this, w) =
     (case unsetVelocityMaterialInScene (fst tw2) w6 of
        Inl e \<Rightarrow> Inl e
      | Inr w7 \<Rightarrow>
          Inr (fst tw2,
               (case view (cameras w7 ?cam) of
                  None \<Rightarrow> w7
                | Some v \<Rightarrow>
                    w7\<lparr>cameras := (cameras w7)
                         (?cam := (cameras w7 ?cam)\<lparr>view := Some (v\<lparr>enabled := True\<rparr>)\<rparr>)\<rparr>)))"
    unfolding w6_def w5_def snap_def w4_def w3_def tw2_def w1_def VelocityPass_render_def Let_def
    using api by (simp only: fst_conv snd_conv not_True_eq_False if_False)
  have m1: "meshes w1 = meshes w" "background w1 = background w" "gpu w1 = gpu w"
     "next_id w1 = next_id w"
    by (simp_all add: w1_def)
  have tw2: "tw2 = setVelocityMaterial_loop ?cs (this\<lparr>visibleMeshes := ?cs\<rparr>, w1)"
    by (simp add: tw2_def setVelocityMaterialInScene_def Let_def m1)
  have fr: "cameras (snd tw2) = cameras w1" "background (snd tw2) = background w"
     "gpu (snd tw2) = gpu w" "vp_camera (fst tw2) = ?cam"
     "vp_renderTarget (fst tw2) = vp_renderTarget this" "visibleMeshes (fst tw2) = ?cs"
    using setVelocityMaterial_loop_frame [of ?cs "(this\<lparr>visibleMeshes := ?cs\<rparr>, w1)"]
    by (simp_all add: tw2 m1)
  have entries: "\<forall>c \<in> set (visibleMeshes (fst tw2)). cachedMaterials (fst tw2) c \<noteq> None"
    using setVelocityMaterial_loop_has_entry [of _ ?cs "(this\<lparr>visibleMeshes := ?cs\<rparr>, w1)"]
    by (simp add: fr tw2 [symmetric])
  from unsetVelocityMaterial_loop_ok [OF entries, of w6] obtain w7 where
    w7: "unsetVelocityMaterial_loop (visibleMeshes (fst tw2)) (fst tw2) w6 = Inr w7"
        "cameras w7 = cameras w6" "background w7 = background w6" "gpu w7 = gpu w6"
        "next_id w7 = next_id w6"
        "\<forall>c. meshes w7 c =
           (if c \<in> set (visibleMeshes (fst tw2))
            then (meshes w6 c)\<lparr>material := fst (the (cachedMaterials (fst tw2) c)), visible := True\<rparr>
            else meshes w6 c)"
    by blast
  define w8 where "w8 = (case view (cameras w7 ?cam) of
                          None \<Rightarrow> w7
                        | Some v \<Rightarrow>
                            w7\<lparr>cameras := (cameras w7)
                                 (?cam := (cameras w7 ?cam)\<lparr>view := Some (v\<lparr>enabled := True\<rparr>)\<rparr>)\<rparr>)"
  have run: "VelocityPass_render sh g (this, w) = Inr (fst tw2, w8)"
    using w7(1) by (simp add: run0 unsetVelocityMaterialInScene_def w8_def)
  have w6: "cameras w6 = cameras w1" "background w6 = background w" "meshes w6 = meshes (snd tw2)"
     "next_id w6 = next_id (snd tw2)"
     "gpu w6 = render_draw (program sh) snap (setRenderTarget (mrt_texture (vp_renderTarget this)) (gpu w))"
    by (simp_all add: w6_def w5_def w4_def w3_def fr)
  have snap: "snap = GeometrySnap (clearViewOffset (cameras w ?cam)) backgroundColor
                (map (\<lambda>c. (c, meshes (snd tw2) c)) ?cs)"
    by (simp add: snap_def w4_def w3_def fr w1_def)
  have w8frame: "background w8 = background w7" "gpu w8 = gpu w7" "meshes w8 = meshes w7"
     "next_id w8 = next_id w7"
    by (simp_all add: w8_def split: option.splits)
  have cam8: "cameras w8 = (cameras w)(?cam :=
        (case view (cameras w ?cam) of
           None \<Rightarrow> cameras w ?cam
         | Some v \<Rightarrow> (cameras w ?cam)\<lparr>view := Some (v\<lparr>enabled := True\<rparr>)\<rparr>))"
    by (auto simp: w8_def w7 w6 w1_def clearViewOffset_def fun_eq_iff split: option.splits)
  have calls8: "calls (gpu w8) = calls (gpu w) @ [(mrt_texture (vp_renderTarget this), snap)]"
    by (simp add: w8frame w7 w6 render_draw_def setRenderTarget_def)
  have vram8: "\<forall>t. t \<notin> set (mrt_texture (vp_renderTarget this)) \<longrightarrow> vram (gpu w8) t = vram (gpu w) t"
    by (simp add: w8frame w7 w6 render_draw_def setRenderTarget_def index_of_None)
  have other: "\<forall>c. c \<notin> set ?cs \<longrightarrow> meshes w8 c = meshes w c"
    using setVelocityMaterial_loop_other [of _ ?cs "(this\<lparr>visibleMeshes := ?cs\<rparr>, w1)"]
    by (simp add: w8frame w7(6) fr w6 tw2 [symmetric] m1)
  have vis: "\<forall>c \<in> set ?cs. visible (meshes w8 c) \<and>
         constructor_name (meshes w8 c) = constructor_name (meshes w c)"
    using setVelocityMaterial_loop_name [of ?cs "(this\<lparr>visibleMeshes := ?cs\<rparr>, w1)"]
    by (simp add: w8frame w7(6) fr w6 tw2 [symmetric] m1)
  have mat: "distinct ?cs \<longrightarrow> (\<forall>c \<in> set ?cs. material (meshes w8 c) = material (meshes w c))"
  proof (intro impI ballI)
    fix c assume d: "distinct ?cs" and c: "c \<in> set ?cs"
    from setVelocityMaterial_loop_cached [OF d c, of "(this\<lparr>visibleMeshes := ?cs\<rparr>, w1)"]
    obtain vm where "cachedMaterials (fst tw2) c = Some (material (meshes w c), vm)"
      by (auto simp: tw2 [symmetric] m1)
    then show "material (meshes w8 c) = material (meshes w c)"
      using c by (simp add: w8frame w7(6) fr)
  qed
  have nid: "next_id w \<le> next_id w8"
    using setVelocityMaterial_loop_next_id [of "(this\<lparr>visibleMeshes := ?cs\<rparr>, w1)" ?cs]
    by (simp add: w8frame w7 w6 tw2 [symmetric] m1)
  have bg: "background w8 = background w"
    by (simp add: w8frame w7 w6)
  note all = conjI [OF run conjI [OF fr(6) conjI [OF fr(4) conjI [OF fr(5) conjI [OF bg
     conjI [OF nid conjI [OF cam8 conjI [OF calls8 [unfolded snap] conjI [OF vram8
     conjI [OF other conjI [OF vis mat]]]]]]]]]]]
  show ?thesis
    by (rule exI, rule exI, rule exI, rule all)
qed

section \<open>Properties of TemporalResolvePass.render\<close>

lemma view_offset_clear [simp]: "view_offset (clearViewOffset c) = None"
  by (cases "view c") (simp_all add: view_offset_def clearViewOffset_def)

text \<open>The three parts of render after the velocity pass, taken together.\<close>

lemma finish_frame:
  "save_last_transformations (save_history sh (resolve_draw sh (t, w))) = (t', w') \<Longrightarrow>
     renderTarget t' = renderTarget t \<and>
     velocityPass t' = velocityPass t \<and>
     tr_camera t' = tr_camera t \<and>
     renderVelocity t' = renderVelocity t \<and>
     r2Sequence t' = r2Sequence t \<and> pointsIndex t' = pointsIndex t \<and>
     cp_renderTarget (copyPass t') = cp_renderTarget (copyPass t) \<and>
     fullscreenMaterial t' = (fullscreenMaterial t)
        \<lparr>prevCameraMatrixWorld := matrixWorld (cameras w (tr_camera t)),
         prevViewMatrix := matrixWorldInverse (cameras w (tr_camera t))\<rparr> \<and>
     this_accumulatedTexture t' = Some (rt_texture (renderTarget t)) \<and>
     cameras w' = cameras w \<and> meshes w' = meshes w \<and> materials w' = materials w \<and>
     background w' = background w \<and> next_id w' = next_id w \<and>
     calls (gpu w') = calls (gpu w) @
       [([rt_texture (renderTarget t)], ResolveSnap (fullscreenMaterial t)),
        (mrt_texture (cp_renderTarget (copyPass t)),
         CopySnap ((cp_uniforms (copyPass t))
           \<lparr>cp_inputTexture := Some (rt_texture (renderTarget t)),
            inputTexture2 := tr_depthTexture (fullscreenMaterial t),
            inputTexture3 := tr_normalTexture (fullscreenMaterial t)\<rparr>))]"
  by (auto simp: save_last_transformations_def save_history_def resolve_draw_def Let_def
        CopyPass_render_def render_draw_def setRenderTarget_def TemporalResolvePass_texture_def)

lemma render_velocity_off:
  "\<not> renderVelocity t \<Longrightarrow> render_velocity sh g (t, w) = Inr (t, w)"
  by (simp add: render_velocity_def)

lemma render_velocity_on:
  assumes "renderVelocity t" "hasViewOffset (cameras w (vp_camera (velocityPass t)))"
  shows "\<exists>vp w1 ms. render_velocity sh g (t, w) = Inr (t\<lparr>velocityPass := vp\<rparr>, w1) \<and>
     vp_renderTarget vp = vp_renderTarget (velocityPass t) \<and>
     vp_camera vp = vp_camera (velocityPass t) \<and>
     calls (gpu w1) = calls (gpu w) @
        [(mrt_texture (vp_renderTarget (velocityPass t)),
          GeometrySnap (clearViewOffset (cameras w (vp_camera (velocityPass t)))) backgroundColor ms)] \<and>
     (\<forall>x. x \<notin> set (mrt_texture (vp_renderTarget (velocityPass t))) \<longrightarrow>
           vram (gpu w1) x = vram (gpu w) x) \<and>
     (\<forall>c. matrixWorld (cameras w1 c) = matrixWorld (cameras w c) \<and>
          matrixWorldInverse (cameras w1 c) = matrixWorldInverse (cameras w c) \<and>
          hasViewOffset (cameras w1 c) = hasViewOffset (cameras w c))"
proof -
  from VelocityPass_render_result [OF assms(2), of sh g] obtain vp w1 ms where
    r: "VelocityPass_render sh g (velocityPass t, w) = Inr (vp, w1)"
       "vp_camera vp = vp_camera (velocityPass t)"
       "vp_renderTarget vp = vp_renderTarget (velocityPass t)"
       "cameras w1 = (cameras w)(vp_camera (velocityPass t) :=
        (case view (cameras w (vp_camera (velocityPass t))) of
           None \<Rightarrow> cameras w (vp_camera (velocityPass t))
         | Some v \<Rightarrow> (cameras w (vp_camera (velocityPass t)))\<lparr>view := Some (v\<lparr>enabled := True\<rparr>)\<rparr>))"
       "calls (gpu w1) = calls (gpu w) @
        [(mrt_texture (vp_renderTarget (velocityPass t)),
          GeometrySnap (clearViewOffset (cameras w (vp_camera (velocityPass t)))) backgroundColor ms)]"
       "\<forall>x. x \<notin> set (mrt_texture (vp_renderTarget (velocityPass t))) \<longrightarrow>
           vram (gpu w1) x = vram (gpu w) x"
    by blast
  have m: "\<forall>c. matrixWorld (cameras w1 c) = matrixWorld (cameras w c) \<and>
          matrixWorldInverse (cameras w1 c) = matrixWorldInverse (cameras w c) \<and>
          hasViewOffset (cameras w1 c) = hasViewOffset (cameras w c)"
    by (simp add: r(4) split: option.splits)
  have run: "render_velocity sh g (t, w) = Inr (t\<lparr>velocityPass := vp\<rparr>, w1)"
    using assms(1) r(1) by (simp add: render_velocity_def)
  note all = conjI [OF run conjI [OF r(3) conjI [OF r(2) conjI [OF r(5) conjI [OF r(6) m]]]]]
  show ?thesis by (rule exI, rule exI, rule exI, rule all)
qed

lemma render_velocity_Inr:
  "render_velocity sh g (t, w) = Inr (t1, w1) \<Longrightarrow>
     (\<not> renderVelocity t \<and> t1 = t \<and> w1 = w) \<or>
     (renderVelocity t \<and> hasViewOffset (cameras w (vp_camera (velocityPass t))))"
  by (auto simp: render_velocity_def VelocityPass_render_def Let_def split: if_splits sum.splits)

lemma TemporalResolvePass_render_Inr:
  assumes "TemporalResolvePass_render sh g (t, w) = Inr (t', w')"
  shows "\<exists>t1 w1 pre.
     save_last_transformations (save_history sh (resolve_draw sh (t1, w1))) = (t', w') \<and>
     fullscreenMaterial t1 = fullscreenMaterial t \<and> renderTarget t1 = renderTarget t \<and>
     copyPass t1 = copyPass t \<and> tr_camera t1 = tr_camera t \<and>
     renderVelocity t1 = renderVelocity t \<and>
     r2Sequence t1 = r2Sequence t \<and> pointsIndex t1 = pointsIndex t \<and>
     vp_renderTarget (velocityPass t1) = vp_renderTarget (velocityPass t) \<and>
     vp_camera (velocityPass t1) = vp_camera (velocityPass t) \<and>
     calls (gpu w1) = calls (gpu w) @ pre \<and>
     (\<forall>x. x \<notin> set (mrt_texture (vp_renderTarget (velocityPass t))) \<longrightarrow>
           vram (gpu w1) x = vram (gpu w) x) \<and>
     (\<forall>c. matrixWorld (cameras w1 c) = matrixWorld (cameras w c) \<and>
          matrixWorldInverse (cameras w1 c) = matrixWorldInverse (cameras w c) \<and>
          hasViewOffset (cameras w1 c) = hasViewOffset (cameras w c)) \<and>
     ((\<not> renderVelocity t \<and> pre = [] \<and> w1 = w) \<or>
      (renderVelocity t \<and> hasViewOffset (cameras w (vp_camera (velocityPass t))) \<and>
       (\<exists>ms. pre = [(mrt_texture (vp_renderTarget (velocityPass t)),
          GeometrySnap (clearViewOffset (cameras w (vp_camera (velocityPass t)))) backgroundColor ms)])))"
proof -
  from assms obtain t1 w1 where
    v: "render_velocity sh g (t, w) = Inr (t1, w1)" and
    f: "save_last_transformations (save_history sh (resolve_draw sh (t1, w1))) = (t', w')"
    by (auto simp: TemporalResolvePass_render_def split: sum.splits)
  show ?thesis
  proof (cases "renderVelocity t")
    case False
    with v have "t1 = t" "w1 = w" by (simp_all add: render_velocity_off)
    with f False show ?thesis by auto
  next
    case True
    with render_velocity_Inr [OF v]
    have api: "hasViewOffset (cameras w (vp_camera (velocityPass t)))" by simp
    from render_velocity_on [OF True api, of sh g] v obtain vp ms where
      r: "t1 = t\<lparr>velocityPass := vp\<rparr>"
         "vp_renderTarget vp = vp_renderTarget (velocityPass t)"
         "vp_camera vp = vp_camera (velocityPass t)"
         "calls (gpu w1) = calls (gpu w) @
            [(mrt_texture (vp_renderTarget (velocityPass t)),
              GeometrySnap (clearViewOffset (cameras w (vp_camera (velocityPass t)))) backgroundColor ms)]"
         "\<forall>x. x \<notin> set (mrt_texture (vp_renderTarget (velocityPass t))) \<longrightarrow>
               vram (gpu w1) x = vram (gpu w) x"
         "\<forall>c. matrixWorld (cameras w1 c) = matrixWorld (cameras w c) \<and>
              matrixWorldInverse (cameras w1 c) = matrixWorldInverse (cameras w c) \<and>
              hasViewOffset (cameras w1 c) = hasViewOffset (cameras w c)"
      by auto
    show ?thesis
      apply (rule exI [of _ t1], rule exI [of _ w1])
      apply (rule exI [of _ "[(mrt_texture (vp_renderTarget (velocityPass t)),
              GeometrySnap (clearViewOffset (cameras w (vp_camera (velocityPass t)))) backgroundColor ms)]"])
      using f True api r by simp
  qed
qed

lemma TemporalResolvePass_render_total:
  "\<not> renderVelocity t \<or> hasViewOffset (cameras w (vp_camera (velocityPass t))) \<Longrightarrow>
     \<exists>t' w'. TemporalResolvePass_render sh g (t, w) = Inr (t', w')"
proof (cases "renderVelocity t")
  case False
  then show ?thesis
    by (simp add: TemporalResolvePass_render_def render_velocity_off)
next
  case True
  assume "\<not> renderVelocity t \<or> hasViewOffset (cameras w (vp_camera (velocityPass t)))"
  with True have "hasViewOffset (cameras w (vp_camera (velocityPass t)))" by simp
  from render_velocity_on [OF True this, of sh g] obtain vp w1 where
    "render_velocity sh g (t, w) = Inr (t\<lparr>velocityPass := vp\<rparr>, w1)" by blast
  then show ?thesis
    by (cases "save_last_transformations (save_history sh (resolve_draw sh (t\<lparr>velocityPass := vp\<rparr>, w1)))")
       (simp add: TemporalResolvePass_render_def)
qed

text \<open>
  Claim C7. After every invocation of \<open>TemporalResolvePass.render\<close> that returns, the
  uniforms \<open>prevCameraMatrixWorld\<close> and \<open>prevViewMatrix\<close> equal the camera's current
  \<open>matrixWorld\<close> and \<open>matrixWorldInverse\<close>. The update comes last: the state just before
  it already holds every draw of the frame, ending with the resolve draw and the history
  copy, and still has the uniforms the resolve draw was issued with.
\<close>

theorem C7_previous_camera_matrices:
  assumes "TemporalResolvePass_render sh g (t, w) = Inr (t', w')"
  shows "prevCameraMatrixWorld (fullscreenMaterial t') = matrixWorld (cameras w' (tr_camera t')) \<and>
     prevViewMatrix (fullscreenMaterial t') = matrixWorldInverse (cameras w' (tr_camera t')) \<and>
     (\<exists>t2 w2 pre cu.
        save_last_transformations (t2, w2) = (t', w') \<and>
        fullscreenMaterial t2 = fullscreenMaterial t \<and>
        calls (gpu w2) = calls (gpu w') \<and>
        calls (gpu w') = calls (gpu w) @ pre @
          [([rt_texture (renderTarget t)], ResolveSnap (fullscreenMaterial t)),
           (mrt_texture (cp_renderTarget (copyPass t)), CopySnap cu)])"
proof -
  from TemporalResolvePass_render_Inr [OF assms] obtain t1 w1 pre where
    f: "save_last_transformations (save_history sh (resolve_draw sh (t1, w1))) = (t', w')" and
    k: "fullscreenMaterial t1 = fullscreenMaterial t" "renderTarget t1 = renderTarget t"
       "copyPass t1 = copyPass t" "tr_camera t1 = tr_camera t"
       "calls (gpu w1) = calls (gpu w) @ pre"
    by blast
  note ff = finish_frame [OF f]
  obtain t2 w2 where tw2: "save_history sh (resolve_draw sh (t1, w1)) = (t2, w2)"
    by (cases "save_history sh (resolve_draw sh (t1, w1))") auto
  have s2: "fullscreenMaterial t2 = fullscreenMaterial t"
    using tw2 k(1) by (auto simp: save_history_def resolve_draw_def Let_def)
  have g2: "calls (gpu w2) = calls (gpu w')"
    using f tw2 by (auto simp: save_last_transformations_def Let_def)
  have a: "prevCameraMatrixWorld (fullscreenMaterial t') = matrixWorld (cameras w' (tr_camera t'))"
    using ff by simp
  have b: "prevViewMatrix (fullscreenMaterial t') = matrixWorldInverse (cameras w' (tr_camera t'))"
    using ff by simp
  have c: "calls (gpu w') = calls (gpu w) @ pre @
          [([rt_texture (renderTarget t)], ResolveSnap (fullscreenMaterial t)),
           (mrt_texture (cp_renderTarget (copyPass t)),
            CopySnap ((cp_uniforms (copyPass t))
           \<lparr>cp_inputTexture := Some (rt_texture (renderTarget t)),
            inputTexture2 := tr_depthTexture (fullscreenMaterial t),
            inputTexture3 := tr_normalTexture (fullscreenMaterial t)\<rparr>))]"
    using ff k by simp
  have "\<exists>t2 w2 pre cu.
        save_last_transformations (t2, w2) = (t', w') \<and>
        fullscreenMaterial t2 = fullscreenMaterial t \<and>
        calls (gpu w2) = calls (gpu w') \<and>
        calls (gpu w') = calls (gpu w) @ pre @
          [([rt_texture (renderTarget t)], ResolveSnap (fullscreenMaterial t)),
           (mrt_texture (cp_renderTarget (copyPass t)), CopySnap cu)]"
    using f [unfolded tw2] s2 g2 c by blast
  with a b show ?thesis by simp
qed

text \<open>
  Claim C8. \<open>VelocityPass.render\<close> leaves the scene as it found it: every mesh it collected
  has the material it had before the pass and is visible, every other mesh is untouched, and
  the background is the one found on entry. The camera has to support view offsets (the pass
  calls \<open>clearViewOffset\<close> unconditionally), and \<open>getVisibleChildren\<close> has to list every
  mesh once.
\<close>

theorem C8_scene_restored:
  assumes "hasViewOffset (cameras w (vp_camera this))" and "distinct (g (meshes w))"
  shows "\<exists>this' w'.
     VelocityPass_render sh g (this, w) = Inr (this', w') \<and>
     visibleMeshes this' = g (meshes w) \<and>
     (\<forall>c \<in> set (visibleMeshes this').
        material (meshes w' c) = material (meshes w c) \<and> visible (meshes w' c)) \<and>
     (\<forall>c. c \<notin> set (visibleMeshes this') \<longrightarrow> meshes w' c = meshes w c) \<and>
     background w' = background w"
proof -
  from VelocityPass_render_result [OF assms(1), of sh g] obtain this' w' where
    r: "VelocityPass_render sh g (this, w) = Inr (this', w')"
       "visibleMeshes this' = g (meshes w)"
       "background w' = background w"
       "\<forall>c. c \<notin> set (g (meshes w)) \<longrightarrow> meshes w' c = meshes w c"
       "\<forall>c \<in> set (g (meshes w)). visible (meshes w' c) \<and>
         constructor_name (meshes w' c) = constructor_name (meshes w c)"
       "distinct (g (meshes w)) \<longrightarrow>
        (\<forall>c \<in> set (g (meshes w)). material (meshes w' c) = material (meshes w c))"
    by blast
  from r assms(2) show ?thesis by auto
qed

text \<open>
  Claim C6. Whenever \<open>VelocityPass.render\<close> runs, the geometry buffers are drawn with a
  camera whose view offset is not in effect, and a view offset stored on the camera is in
  effect again when the pass returns; on a camera without view offsets the pass throws before
  drawing. When \<open>TemporalResolvePass.render\<close> runs the velocity pass, that geometry draw
  is the first draw of the frame, before the resolve draw and the history copy.
\<close>

theorem C6_view_offset_cleared:
  "(if hasViewOffset (cameras w (vp_camera this))
    then (\<exists>this' w' c b ms.
         VelocityPass_render sh g (this, w) = Inr (this', w') \<and>
         calls (gpu w') = calls (gpu w) @
            [(mrt_texture (vp_renderTarget this), GeometrySnap c b ms)] \<and>
         view_offset c = None \<and>
         (\<forall>v. view (cameras w (vp_camera this)) = Some v \<longrightarrow>
              view_offset (cameras w' (vp_camera this)) = Some (offsetX v, offsetY v)))
    else VelocityPass_render sh g (this, w) = Inl TypeError) \<and>
   (\<forall>t' w'. renderVelocity t \<and> TemporalResolvePass_render sh g (t, w) = Inr (t', w') \<longrightarrow>
      (\<exists>c b ms u cu.
         calls (gpu w') = calls (gpu w) @
            [(mrt_texture (vp_renderTarget (velocityPass t)), GeometrySnap c b ms),
             ([rt_texture (renderTarget t)], ResolveSnap u),
             (mrt_texture (cp_renderTarget (copyPass t)), CopySnap cu)] \<and>
         view_offset c = None))"
proof -
  have a: "\<exists>this' w' c b ms.
         VelocityPass_render sh g (this, w) = Inr (this', w') \<and>
         calls (gpu w') = calls (gpu w) @
            [(mrt_texture (vp_renderTarget this), GeometrySnap c b ms)] \<and>
         view_offset c = None \<and>
         (\<forall>v. view (cameras w (vp_camera this)) = Some v \<longrightarrow>
              view_offset (cameras w' (vp_camera this)) = Some (offsetX v, offsetY v))"
    if api: "hasViewOffset (cameras w (vp_camera this))"
  proof -
    from VelocityPass_render_result [OF api, of sh g] obtain this' w' ms where
      r: "VelocityPass_render sh g (this, w) = Inr (this', w')"
         "cameras w' = (cameras w)(vp_camera this :=
            (case view (cameras w (vp_camera this)) of
               None \<Rightarrow> cameras w (vp_camera this)
             | Some v \<Rightarrow> (cameras w (vp_camera this))\<lparr>view := Some (v\<lparr>enabled := True\<rparr>)\<rparr>))"
         "calls (gpu w') = calls (gpu w) @
            [(mrt_texture (vp_renderTarget this),
              GeometrySnap (clearViewOffset (cameras w (vp_camera this))) backgroundColor ms)]"
      by blast
    have "\<forall>v. view (cameras w (vp_camera this)) = Some v \<longrightarrow>
              view_offset (cameras w' (vp_camera this)) = Some (offsetX v, offsetY v)"
      by (simp add: r(2) view_offset_def)
    with r(1,3) view_offset_clear show ?thesis by blast
  qed
  have b: "VelocityPass_render sh g (this, w) = Inl TypeError"
    if "\<not> hasViewOffset (cameras w (vp_camera this))"
    using that by (simp add: VelocityPass_render_def Let_def)
  have c: "\<exists>c b ms u cu.
         calls (gpu w') = calls (gpu w) @
            [(mrt_texture (vp_renderTarget (velocityPass t)), GeometrySnap c b ms),
             ([rt_texture (renderTarget t)], ResolveSnap u),
             (mrt_texture (cp_renderTarget (copyPass t)), CopySnap cu)] \<and>
         view_offset c = None"
    if rv: "renderVelocity t" and run: "TemporalResolvePass_render sh g (t, w) = Inr (t', w')"
    for t' w'
  proof -
    from TemporalResolvePass_render_Inr [OF run] rv obtain t1 w1 ms where
      f: "save_last_transformations (save_history sh (resolve_draw sh (t1, w1))) = (t', w')" and
      k: "fullscreenMaterial t1 = fullscreenMaterial t" "renderTarget t1 = renderTarget t"
         "copyPass t1 = copyPass t"
         "calls (gpu w1) = calls (gpu w) @ [(mrt_texture (vp_renderTarget (velocityPass t)),
          GeometrySnap (clearViewOffset (cameras w (vp_camera (velocityPass t)))) backgroundColor ms)]"
      by auto
    from finish_frame [OF f] k
    have "calls (gpu w') = calls (gpu w) @
            [(mrt_texture (vp_renderTarget (velocityPass t)),
              GeometrySnap (clearViewOffset (cameras w (vp_camera (velocityPass t)))) backgroundColor ms),
             ([rt_texture (renderTarget t)], ResolveSnap (fullscreenMaterial t)),
             (mrt_texture (cp_renderTarget (copyPass t)),
              CopySnap ((cp_uniforms (copyPass t))
                \<lparr>cp_inputTexture := Some (rt_texture (renderTarget t)),
                 inputTexture2 := tr_depthTexture (fullscreenMaterial t),
                 inputTexture3 := tr_normalTexture (fullscreenMaterial t)\<rparr>))]"
      by simp
    with view_offset_clear show ?thesis by blast
  qed
  from a b c show ?thesis by auto
qed

lemma new_wired:
  assumes v: "\<forall>x \<in> set (mrt_texture (vp_renderTarget vp)). x < next_id w0"
      and o: "\<forall>rt. opt_renderTarget opts = Some rt \<longrightarrow>
                 rt_texture rt < next_id w0 \<and> rt_texture rt \<notin> set (mrt_texture (vp_renderTarget vp))"
  shows "wired (fst (TemporalResolvePass_new cam vp opts w0))"
proof (cases "opt_renderTarget opts")
  case None
  have "\<forall>x \<in> set (mrt_texture (vp_renderTarget vp)). x \<noteq> next_id w0 \<and> x \<noteq> Suc (next_id w0)
       \<and> x \<noteq> Suc (Suc (next_id w0)) \<and> x \<noteq> Suc (Suc (Suc (next_id w0)))"
    using v by auto
  then show ?thesis
    using None
    by (auto simp: wired_def TemporalResolvePass_new_def new_WebGLRenderTarget_def CopyPass_new_def
          new_textures_def at_index_def VelocityPass_texture_def VelocityPass_depthTexture_def
          VelocityPass_normalTexture_def Let_def upt_conv_Cons)
next
  case (Some rt)
  have "\<forall>x \<in> set (mrt_texture (vp_renderTarget vp)). x \<noteq> next_id w0 \<and> x \<noteq> Suc (next_id w0)
       \<and> x \<noteq> Suc (Suc (next_id w0))"
    using v by auto
  moreover have "rt_texture rt < next_id w0" "rt_texture rt \<notin> set (mrt_texture (vp_renderTarget vp))"
    using o Some by auto
  ultimately show ?thesis
    using Some
    by (auto simp: wired_def TemporalResolvePass_new_def new_WebGLRenderTarget_def CopyPass_new_def
          new_textures_def at_index_def VelocityPass_texture_def VelocityPass_depthTexture_def
          VelocityPass_normalTexture_def Let_def upt_conv_Cons)
qed

lemma wired_cong:
  "renderTarget t' = renderTarget t \<Longrightarrow>
   cp_renderTarget (copyPass t') = cp_renderTarget (copyPass t) \<Longrightarrow>
   vp_renderTarget (velocityPass t') = vp_renderTarget (velocityPass t) \<Longrightarrow>
   accumulatedTexture (fullscreenMaterial t') = accumulatedTexture (fullscreenMaterial t) \<Longrightarrow>
   lastDepthTexture (fullscreenMaterial t') = lastDepthTexture (fullscreenMaterial t) \<Longrightarrow>
   lastNormalTexture (fullscreenMaterial t') = lastNormalTexture (fullscreenMaterial t) \<Longrightarrow>
   velocityTexture (fullscreenMaterial t') = velocityTexture (fullscreenMaterial t) \<Longrightarrow>
   tr_depthTexture (fullscreenMaterial t') = tr_depthTexture (fullscreenMaterial t) \<Longrightarrow>
   tr_normalTexture (fullscreenMaterial t') = tr_normalTexture (fullscreenMaterial t) \<Longrightarrow>
   wired t' = wired t"
  by (simp add: wired_def Let_def)

text \<open>One frame keeps every buffer handle of the pass.\<close>

lemma render_handles:
  assumes "TemporalResolvePass_render sh g (t, w) = Inr (t', w')"
  shows "renderTarget t' = renderTarget t \<and>
   cp_renderTarget (copyPass t') = cp_renderTarget (copyPass t) \<and>
   vp_renderTarget (velocityPass t') = vp_renderTarget (velocityPass t) \<and>
   accumulatedTexture (fullscreenMaterial t') = accumulatedTexture (fullscreenMaterial t) \<and>
   lastDepthTexture (fullscreenMaterial t') = lastDepthTexture (fullscreenMaterial t) \<and>
   lastNormalTexture (fullscreenMaterial t') = lastNormalTexture (fullscreenMaterial t) \<and>
   velocityTexture (fullscreenMaterial t') = velocityTexture (fullscreenMaterial t) \<and>
   tr_depthTexture (fullscreenMaterial t') = tr_depthTexture (fullscreenMaterial t) \<and>
   tr_normalTexture (fullscreenMaterial t') = tr_normalTexture (fullscreenMaterial t)"
proof -
  from TemporalResolvePass_render_Inr [OF assms] obtain t1 w1 where
    f: "save_last_transformations (save_history sh (resolve_draw sh (t1, w1))) = (t', w')" and
    k: "fullscreenMaterial t1 = fullscreenMaterial t" "renderTarget t1 = renderTarget t"
       "copyPass t1 = copyPass t"
       "vp_renderTarget (velocityPass t1) = vp_renderTarget (velocityPass t)"
    by blast
  from finish_frame [OF f] k show ?thesis by simp
qed

lemma render_wired:
  "TemporalResolvePass_render sh g (t, w) = Inr (t', w') \<Longrightarrow> wired t' = wired t"
  using render_handles [of sh g t w t' w'] by (intro wired_cong) simp_all

text \<open>The draws of one frame, for a pass wired as the constructor leaves it.\<close>

lemma set_option_at_index: "set_option (at_index xs i) \<subseteq> set xs"
  by (auto simp: at_index_def)

lemma render_draws:
  assumes run: "TemporalResolvePass_render sh g (t, w) = Inr (t', w')"
  shows "\<exists>pre cu.
     new_draws w w' = pre @
       [([rt_texture (renderTarget t)], ResolveSnap (fullscreenMaterial t)),
        (mrt_texture (cp_renderTarget (copyPass t)), CopySnap cu)] \<and>
     cp_inputTexture cu = Some (rt_texture (renderTarget t)) \<and>
     inputTexture2 cu = tr_depthTexture (fullscreenMaterial t) \<and>
     inputTexture3 cu = tr_normalTexture (fullscreenMaterial t) \<and>
     (\<forall>e \<in> set pre. \<exists>c b ms.
         e = (mrt_texture (vp_renderTarget (velocityPass t)), GeometrySnap c b ms))"
proof -
  from TemporalResolvePass_render_Inr [OF run] obtain t1 w1 pre where
    f: "save_last_transformations (save_history sh (resolve_draw sh (t1, w1))) = (t', w')" and
    k: "fullscreenMaterial t1 = fullscreenMaterial t" "renderTarget t1 = renderTarget t"
       "copyPass t1 = copyPass t" "calls (gpu w1) = calls (gpu w) @ pre" and
    p: "(\<not> renderVelocity t \<and> pre = [] \<and> w1 = w) \<or>
      (renderVelocity t \<and> hasViewOffset (cameras w (vp_camera (velocityPass t))) \<and>
       (\<exists>ms. pre = [(mrt_texture (vp_renderTarget (velocityPass t)),
          GeometrySnap (clearViewOffset (cameras w (vp_camera (velocityPass t)))) backgroundColor ms)]))"
    by blast
  let ?cu = "(cp_uniforms (copyPass t))
           \<lparr>cp_inputTexture := Some (rt_texture (renderTarget t)),
            inputTexture2 := tr_depthTexture (fullscreenMaterial t),
            inputTexture3 := tr_normalTexture (fullscreenMaterial t)\<rparr>"
  from finish_frame [OF f] k
  have c: "new_draws w w' = pre @
       [([rt_texture (renderTarget t)], ResolveSnap (fullscreenMaterial t)),
        (mrt_texture (cp_renderTarget (copyPass t)), CopySnap ?cu)]"
    by (simp add: new_draws_def)
  have r: "\<forall>e \<in> set pre. \<exists>c b ms.
         e = (mrt_texture (vp_renderTarget (velocityPass t)), GeometrySnap c b ms)"
    using p by auto
  show ?thesis
    apply (rule exI [of _ pre], rule exI [of _ ?cu])
    using c r by simp
qed

lemma render_draws_separate:
  assumes run: "TemporalResolvePass_render sh g (t, w) = Inr (t', w')" and wi: "wired t"
  shows "\<forall>e \<in> set (new_draws w w'). set (fst e) \<inter> reads (snd e) = {}"
proof -
  from render_draws [OF run] obtain pre cu where
    d: "new_draws w w' = pre @
       [([rt_texture (renderTarget t)], ResolveSnap (fullscreenMaterial t)),
        (mrt_texture (cp_renderTarget (copyPass t)), CopySnap cu)]"
       "cp_inputTexture cu = Some (rt_texture (renderTarget t))"
       "inputTexture2 cu = tr_depthTexture (fullscreenMaterial t)"
       "inputTexture3 cu = tr_normalTexture (fullscreenMaterial t)"
       "\<forall>e \<in> set pre. \<exists>c b ms.
         e = (mrt_texture (vp_renderTarget (velocityPass t)), GeometrySnap c b ms)"
    by blast
  let ?hs = "mrt_texture (cp_renderTarget (copyPass t))"
  let ?vs = "mrt_texture (vp_renderTarget (velocityPass t))"
  let ?r = "rt_texture (renderTarget t)"
  from wi have w: "length ?hs = 3" "?r \<notin> set ?hs" "?r \<notin> set ?vs" "set ?hs \<inter> set ?vs = {}"
      "accumulatedTexture (fullscreenMaterial t) = Some (?hs ! 0)"
      "lastDepthTexture (fullscreenMaterial t) = Some (?hs ! 1)"
      "lastNormalTexture (fullscreenMaterial t) = Some (?hs ! 2)"
      "velocityTexture (fullscreenMaterial t) = at_index ?vs 0"
      "tr_depthTexture (fullscreenMaterial t) = at_index ?vs 1"
      "tr_normalTexture (fullscreenMaterial t) = at_index ?vs 2"
    by (simp_all add: wired_def Let_def)
  have hin: "?hs ! 0 \<in> set ?hs" "?hs ! 1 \<in> set ?hs" "?hs ! 2 \<in> set ?hs"
    using w(1) by simp_all
  have res: "reads (ResolveSnap (fullscreenMaterial t)) \<subseteq> set ?hs \<union> set ?vs"
    using hin set_option_at_index [of ?vs] by (auto simp: w)
  have cop: "reads (CopySnap cu) \<subseteq> {?r} \<union> set ?vs"
    using set_option_at_index [of ?vs] by (auto simp: d w)
  have a: "set [?r] \<inter> reads (ResolveSnap (fullscreenMaterial t)) = {}"
    using res w(2,3) by auto
  have b: "set ?hs \<inter> reads (CopySnap cu) = {}"
    using cop w(2,4) by auto
  have p: "\<forall>e \<in> set pre. reads (snd e) = {}"
    using d(5) by auto
  show ?thesis
    using a b p by (auto simp: d(1))
qed

lemma render_calls_prefix:
  assumes run: "TemporalResolvePass_render sh g (t, w) = Inr (t', w')"
  shows "calls (gpu w') = calls (gpu w) @ new_draws w w'"
proof -
  from TemporalResolvePass_render_Inr [OF run] obtain t1 w1 pre where
    f: "save_last_transformations (save_history sh (resolve_draw sh (t1, w1))) = (t', w')" and
    k: "calls (gpu w1) = calls (gpu w) @ pre"
    by blast
  from finish_frame [OF f] k show ?thesis by (simp add: new_draws_def)
qed

text \<open>Buffer memory after the resolve draw and the history copy.\<close>

lemma resolve_draw_vram:
  "fst (resolve_draw sh (t, w)) = t \<and>
   vram (gpu (snd (resolve_draw sh (t, w)))) =
     (\<lambda>x. if x = rt_texture (renderTarget t)
          then program sh (ResolveSnap (fullscreenMaterial t)) (vram (gpu w)) 0
          else vram (gpu w) x)"
  by (simp add: resolve_draw_def Let_def render_draw_def setRenderTarget_def fun_eq_iff)

lemma save_history_vram:
  "vram (gpu (snd (save_history sh (t, w)))) =
     (\<lambda>x. case index_of x (mrt_texture (cp_renderTarget (copyPass t))) of
            None \<Rightarrow> vram (gpu w) x
          | Some k \<Rightarrow> program sh (CopySnap ((cp_uniforms (copyPass t))
               \<lparr>cp_inputTexture := Some (rt_texture (renderTarget t)),
                inputTexture2 := tr_depthTexture (fullscreenMaterial t),
                inputTexture3 := tr_normalTexture (fullscreenMaterial t)\<rparr>)) (vram (gpu w)) k)"
  by (simp add: save_history_def Let_def CopyPass_render_def render_draw_def setRenderTarget_def
        TemporalResolvePass_texture_def cong: option.case_cong)

lemma save_last_transformations_gpu:
  "gpu (snd (save_last_transformations tw)) = gpu (snd tw)"
  by (simp add: save_last_transformations_def Let_def)

lemma finish_vram:
  assumes f: "save_last_transformations (save_history sh (resolve_draw sh (t, w))) = (t', w')"
      and wi: "wired t"
  shows "vram (gpu w') (rt_texture (renderTarget t)) =
           program sh (ResolveSnap (fullscreenMaterial t)) (vram (gpu w)) 0 \<and>
         vram (gpu w') (mrt_texture (cp_renderTarget (copyPass t)) ! 0) =
           vram (gpu w') (rt_texture (renderTarget t)) \<and>
         (\<forall>d. tr_depthTexture (fullscreenMaterial t) = Some d \<longrightarrow>
            vram (gpu w') (mrt_texture (cp_renderTarget (copyPass t)) ! 1) = vram (gpu w') d \<and>
            vram (gpu w') d = vram (gpu w) d) \<and>
         (\<forall>n. tr_normalTexture (fullscreenMaterial t) = Some n \<longrightarrow>
            vram (gpu w') (mrt_texture (cp_renderTarget (copyPass t)) ! 2) = vram (gpu w') n \<and>
            vram (gpu w') n = vram (gpu w) n) \<and>
         (\<forall>x. x \<noteq> rt_texture (renderTarget t) \<and> x \<notin> set (mrt_texture (cp_renderTarget (copyPass t)))
            \<longrightarrow> vram (gpu w') x = vram (gpu w) x)"
proof -
  let ?hs = "mrt_texture (cp_renderTarget (copyPass t))"
  let ?vs = "mrt_texture (vp_renderTarget (velocityPass t))"
  let ?r = "rt_texture (renderTarget t)"
  let ?u = "fullscreenMaterial t"
  let ?cu = "(cp_uniforms (copyPass t))
           \<lparr>cp_inputTexture := Some ?r, inputTexture2 := tr_depthTexture ?u,
            inputTexture3 := tr_normalTexture ?u\<rparr>"
  define m1 where "m1 = (\<lambda>x. if x = ?r then program sh (ResolveSnap ?u) (vram (gpu w)) 0
                              else vram (gpu w) x)"
  from wi have wd: "length ?hs = 3" "distinct ?hs" "?r \<notin> set ?hs" "?r \<notin> set ?vs"
      "set ?hs \<inter> set ?vs = {}"
      "tr_depthTexture ?u = at_index ?vs 1" "tr_normalTexture ?u = at_index ?vs 2"
    by (simp_all add: wired_def Let_def)
  have v: "vram (gpu w') = (\<lambda>x. case index_of x ?hs of
                 None \<Rightarrow> m1 x
               | Some k \<Rightarrow> program sh (CopySnap ?cu) m1 k)"
  proof -
    obtain w2 where r: "resolve_draw sh (t, w) = (t, w2)" and m: "vram (gpu w2) = m1"
      using resolve_draw_vram [of sh t w]
      by (cases "resolve_draw sh (t, w)") (simp add: m1_def)
    have "gpu w' = gpu (snd (save_history sh (t, w2)))"
      using f save_last_transformations_gpu [of "save_history sh (t, w2)"] by (simp add: r)
    then show ?thesis
      by (simp add: save_history_vram m cong: option.case_cong)
  qed
  have i: "index_of (?hs ! 0) ?hs = Some 0" "index_of (?hs ! Suc 0) ?hs = Some (Suc 0)"
      "index_of (?hs ! 2) ?hs = Some 2"
    using wd(1,2) by (simp_all add: index_of_distinct)
  have a: "vram (gpu w') ?r = program sh (ResolveSnap ?u) (vram (gpu w)) 0"
    using wd(3) by (simp add: v index_of_None m1_def)
  have b: "vram (gpu w') (?hs ! 0) = vram (gpu w') ?r"
    using wd(3) by (simp add: v i index_of_None program_def at_index_def)
  have c: "vram (gpu w') (?hs ! 1) = vram (gpu w') d \<and> vram (gpu w') d = vram (gpu w) d"
    if d: "tr_depthTexture ?u = Some d" for d
  proof -
    from d wd(6) set_option_at_index [of ?vs 1] have "d \<in> set ?vs" by auto
    with wd(4,5) have "d \<noteq> ?r" "d \<notin> set ?hs" by auto
    then show ?thesis
      using d by (simp add: v i index_of_None program_def at_index_def m1_def)
  qed
  have e: "vram (gpu w') (?hs ! 2) = vram (gpu w') n \<and> vram (gpu w') n = vram (gpu w) n"
    if n: "tr_normalTexture ?u = Some n" for n
  proof -
    from n wd(7) set_option_at_index [of ?vs 2] have "n \<in> set ?vs" by auto
    with wd(4,5) have "n \<noteq> ?r" "n \<notin> set ?hs" by auto
    then show ?thesis
      using n by (simp add: v i index_of_None program_def at_index_def m1_def)
  qed
  have o: "\<forall>x. x \<noteq> ?r \<and> x \<notin> set ?hs \<longrightarrow> vram (gpu w') x = vram (gpu w) x"
    by (simp add: v index_of_None m1_def)
  from a b c e o show ?thesis by blast
qed

lemma new_draws_append:
  "calls (gpu w) = calls (gpu wa) @ new_draws wa w \<Longrightarrow>
   calls (gpu w') = calls (gpu w) @ new_draws w w' \<Longrightarrow>
   new_draws wa w' = new_draws wa w @ new_draws w w' \<and>
   calls (gpu w') = calls (gpu wa) @ new_draws wa w'"
proof -
  assume a: "calls (gpu w) = calls (gpu wa) @ new_draws wa w"
     and b: "calls (gpu w') = calls (gpu w) @ new_draws w w'"
  have "calls (gpu w') = calls (gpu wa) @ (new_draws wa w @ new_draws w w')"
    using a b by simp
  then have "new_draws wa w' = new_draws wa w @ new_draws w w'"
    unfolding new_draws_def [of wa w'] by simp
  then show ?thesis using a b by simp
qed

lemma render_frames_inv:
  "render_frames sh g n (t0, wa) = Inr (t, w) \<Longrightarrow> wired t0 \<Longrightarrow>
     wired t \<and>
     renderTarget t = renderTarget t0 \<and>
     cp_renderTarget (copyPass t) = cp_renderTarget (copyPass t0) \<and>
     vp_renderTarget (velocityPass t) = vp_renderTarget (velocityPass t0) \<and>
     tr_depthTexture (fullscreenMaterial t) = tr_depthTexture (fullscreenMaterial t0) \<and>
     tr_normalTexture (fullscreenMaterial t) = tr_normalTexture (fullscreenMaterial t0) \<and>
     calls (gpu w) = calls (gpu wa) @ new_draws wa w \<and>
     (\<forall>e \<in> set (new_draws wa w).
        set (fst e) \<inter> reads (snd e) = {} \<and>
        (case snd e of
           GeometrySnap c b ms \<Rightarrow> fst e = mrt_texture (vp_renderTarget (velocityPass t0))
         | ResolveSnap u \<Rightarrow>
             fst e = [rt_texture (renderTarget t0)] \<and>
             set (mrt_texture (cp_renderTarget (copyPass t0))) \<subseteq> reads (snd e)
         | CopySnap cu \<Rightarrow>
             fst e = mrt_texture (cp_renderTarget (copyPass t0)) \<and>
             reads (snd e) = {rt_texture (renderTarget t0)} \<union>
               set_option (tr_depthTexture (fullscreenMaterial t0)) \<union>
               set_option (tr_normalTexture (fullscreenMaterial t0))))"
proof (induction n arbitrary: t w)
  case 0
  then show ?case by (simp add: new_draws_def)
next
  case (Suc n)
  from Suc.prems(1) obtain t1 w1 where
    n: "render_frames sh g n (t0, wa) = Inr (t1, w1)" and
    r: "TemporalResolvePass_render sh g (t1, w1) = Inr (t, w)"
    by (auto split: sum.splits)
  note ih = Suc.IH [OF n Suc.prems(2)]
  note h = render_handles [OF r]
  have wt: "wired t" using render_wired [OF r] ih by simp
  from render_draws [OF r] obtain pre cu where
    d: "new_draws w1 w = pre @
       [([rt_texture (renderTarget t1)], ResolveSnap (fullscreenMaterial t1)),
        (mrt_texture (cp_renderTarget (copyPass t1)), CopySnap cu)]"
       "cp_inputTexture cu = Some (rt_texture (renderTarget t1))"
       "inputTexture2 cu = tr_depthTexture (fullscreenMaterial t1)"
       "inputTexture3 cu = tr_normalTexture (fullscreenMaterial t1)"
       "\<forall>e \<in> set pre. \<exists>c b ms.
         e = (mrt_texture (vp_renderTarget (velocityPass t1)), GeometrySnap c b ms)"
    by blast
  from ih have w1: "wired t1" by simp
  then have hs: "length (mrt_texture (cp_renderTarget (copyPass t1))) = 3"
      "accumulatedTexture (fullscreenMaterial t1) = Some (mrt_texture (cp_renderTarget (copyPass t1)) ! 0)"
      "lastDepthTexture (fullscreenMaterial t1) = Some (mrt_texture (cp_renderTarget (copyPass t1)) ! 1)"
      "lastNormalTexture (fullscreenMaterial t1) = Some (mrt_texture (cp_renderTarget (copyPass t1)) ! 2)"
    by (simp_all add: wired_def Let_def)
  have sub: "set (mrt_texture (cp_renderTarget (copyPass t1))) \<subseteq> reads (ResolveSnap (fullscreenMaterial t1))"
  proof
    fix x assume "x \<in> set (mrt_texture (cp_renderTarget (copyPass t1)))"
    then obtain i where "i < 3" "x = mrt_texture (cp_renderTarget (copyPass t1)) ! i"
      using hs(1) by (auto simp: in_set_conv_nth)
    then have "i = 0 \<or> i = 1 \<or> i = 2" by auto
    then show "x \<in> reads (ResolveSnap (fullscreenMaterial t1))"
      using \<open>x = _\<close> hs by auto
  qed
  have shape: "\<forall>e \<in> set (new_draws w1 w).
        (case snd e of
           GeometrySnap c b ms \<Rightarrow> fst e = mrt_texture (vp_renderTarget (velocityPass t0))
         | ResolveSnap u \<Rightarrow>
             fst e = [rt_texture (renderTarget t0)] \<and>
             set (mrt_texture (cp_renderTarget (copyPass t0))) \<subseteq> reads (snd e)
         | CopySnap cu \<Rightarrow>
             fst e = mrt_texture (cp_renderTarget (copyPass t0)) \<and>
             reads (snd e) = {rt_texture (renderTarget t0)} \<union>
               set_option (tr_depthTexture (fullscreenMaterial t0)) \<union>
               set_option (tr_normalTexture (fullscreenMaterial t0)))"
    using d(5) sub ih by (auto simp: d(1,2,3,4))
  note sep = render_draws_separate [OF r w1]
  note ap = new_draws_append [OF _ render_calls_prefix [OF r], of wa]
  have app: "new_draws wa w = new_draws wa w1 @ new_draws w1 w"
     "calls (gpu w) = calls (gpu wa) @ new_draws wa w"
    using ap ih by simp_all
  show ?case
    using wt h ih sep shape by (auto simp: app)
qed

lemma render_frames_total:
  "\<forall>c. hasViewOffset (cameras wa c) \<Longrightarrow>
     \<exists>t w. render_frames sh g n (t0, wa) = Inr (t, w) \<and> (\<forall>c. hasViewOffset (cameras w c))"
proof (induction n)
  case 0
  then show ?case by simp
next
  case (Suc n)
  then obtain t1 w1 where n: "render_frames sh g n (t0, wa) = Inr (t1, w1)"
      and c: "\<forall>c. hasViewOffset (cameras w1 c)"
    by blast
  from TemporalResolvePass_render_total [of t1 w1 sh g] c obtain t w where
    r: "TemporalResolvePass_render sh g (t1, w1) = Inr (t, w)" by auto
  from TemporalResolvePass_render_Inr [OF r] obtain t2 w2 where
    f: "save_last_transformations (save_history sh (resolve_draw sh (t2, w2))) = (t, w)" and
    k: "\<forall>c. matrixWorld (cameras w2 c) = matrixWorld (cameras w1 c) \<and>
          matrixWorldInverse (cameras w2 c) = matrixWorldInverse (cameras w1 c) \<and>
          hasViewOffset (cameras w2 c) = hasViewOffset (cameras w1 c)"
    by blast
  from finish_frame [OF f] k c have "\<forall>c. hasViewOffset (cameras w c)" by simp
  with n r show ?case by simp
qed

text \<open>
  Claim C5. For a pass built by the constructor (a render target passed in the options being
  an object that exists already and is not the velocity pass's target), every draw of every
  frame writes buffers disjoint from the ones it reads: the geometry draw writes the velocity
  target, the resolve draw reads the history textures (the copy pass's target) and writes the
  pass's own render target, and the history copy reads that render target and the current
  depth and normal and writes the copy pass's target.
\<close>

theorem C5_reads_writes_disjoint:
  assumes "\<forall>x \<in> set (mrt_texture (vp_renderTarget vp)). x < next_id w0"
      and "\<forall>rt. opt_renderTarget opts = Some rt \<longrightarrow>
             rt_texture rt < next_id w0 \<and> rt_texture rt \<notin> set (mrt_texture (vp_renderTarget vp))"
      and "render_frames sh g n (fst (TemporalResolvePass_new cam vp opts w0), wa) = Inr (t, w)"
  shows "\<forall>e \<in> set (new_draws wa w).
        set (fst e) \<inter> reads (snd e) = {} \<and>
        (case snd e of
           GeometrySnap c b ms \<Rightarrow> fst e = mrt_texture (vp_renderTarget vp)
         | ResolveSnap u \<Rightarrow>
             fst e = [rt_texture (renderTarget t)] \<and>
             set (mrt_texture (cp_renderTarget (copyPass t))) \<subseteq> reads (snd e)
         | CopySnap cu \<Rightarrow>
             fst e = mrt_texture (cp_renderTarget (copyPass t)) \<and>
             reads (snd e) = {rt_texture (renderTarget t)} \<union>
               set_option (VelocityPass_depthTexture vp) \<union>
               set_option (VelocityPass_normalTexture vp))"
proof -
  let ?t0 = "fst (TemporalResolvePass_new cam vp opts w0)"
  have w0: "wired ?t0" by (rule new_wired [OF assms(1,2)])
  have c: "velocityPass ?t0 = vp"
      "tr_depthTexture (fullscreenMaterial ?t0) = VelocityPass_depthTexture vp"
      "tr_normalTexture (fullscreenMaterial ?t0) = VelocityPass_normalTexture vp"
    by (simp_all add: TemporalResolvePass_new_def split: prod.splits option.splits)
  note inv = render_frames_inv [OF assms(3) w0, unfolded c]
  show ?thesis
  proof
    fix e assume e: "e \<in> set (new_draws wa w)"
    from inv have eq: "renderTarget t = renderTarget ?t0"
       "cp_renderTarget (copyPass t) = cp_renderTarget (copyPass ?t0)" by simp_all
    from inv have "\<forall>e \<in> set (new_draws wa w).
        set (fst e) \<inter> reads (snd e) = {} \<and>
        (case snd e of
           GeometrySnap c b ms \<Rightarrow> fst e = mrt_texture (vp_renderTarget vp)
         | ResolveSnap u \<Rightarrow>
             fst e = [rt_texture (renderTarget ?t0)] \<and>
             set (mrt_texture (cp_renderTarget (copyPass ?t0))) \<subseteq> reads (snd e)
         | CopySnap cu \<Rightarrow>
             fst e = mrt_texture (cp_renderTarget (copyPass ?t0)) \<and>
             reads (snd e) = {rt_texture (renderTarget ?t0)} \<union>
               set_option (VelocityPass_depthTexture vp) \<union>
               set_option (VelocityPass_normalTexture vp))"
      by blast
    from bspec [OF this e] show "set (fst e) \<inter> reads (snd e) = {} \<and>
        (case snd e of
           GeometrySnap c b ms \<Rightarrow> fst e = mrt_texture (vp_renderTarget vp)
         | ResolveSnap u \<Rightarrow>
             fst e = [rt_texture (renderTarget t)] \<and>
             set (mrt_texture (cp_renderTarget (copyPass t))) \<subseteq> reads (snd e)
         | CopySnap cu \<Rightarrow>
             fst e = mrt_texture (cp_renderTarget (copyPass t)) \<and>
             reads (snd e) = {rt_texture (renderTarget t)} \<union>
               set_option (VelocityPass_depthTexture vp) \<union>
               set_option (VelocityPass_normalTexture vp))"
      unfolding eq .
  qed
qed

lemma render_history:
  assumes run: "TemporalResolvePass_render sh g (t, w) = Inr (t', w')" and wi: "wired t"
  shows "(\<exists>m. (\<forall>h \<in> set (mrt_texture (cp_renderTarget (copyPass t))). m h = vram (gpu w) h) \<and>
              vram (gpu w') (rt_texture (renderTarget t)) =
                program sh (ResolveSnap (fullscreenMaterial t)) m 0) \<and>
         vram (gpu w') (mrt_texture (cp_renderTarget (copyPass t)) ! 0) =
           vram (gpu w') (rt_texture (renderTarget t)) \<and>
         (\<forall>d. tr_depthTexture (fullscreenMaterial t) = Some d \<longrightarrow>
            vram (gpu w') (mrt_texture (cp_renderTarget (copyPass t)) ! 1) = vram (gpu w') d) \<and>
         (\<forall>n. tr_normalTexture (fullscreenMaterial t) = Some n \<longrightarrow>
            vram (gpu w') (mrt_texture (cp_renderTarget (copyPass t)) ! 2) = vram (gpu w') n)"
proof -
  from TemporalResolvePass_render_Inr [OF run] obtain t1 w1 where
    f: "save_last_transformations (save_history sh (resolve_draw sh (t1, w1))) = (t', w')" and
    k: "fullscreenMaterial t1 = fullscreenMaterial t" "renderTarget t1 = renderTarget t"
       "copyPass t1 = copyPass t"
       "vp_renderTarget (velocityPass t1) = vp_renderTarget (velocityPass t)" and
    v: "\<forall>x. x \<notin> set (mrt_texture (vp_renderTarget (velocityPass t))) \<longrightarrow>
           vram (gpu w1) x = vram (gpu w) x"
    by blast
  have w1: "wired t1"
    using wi wired_cong [of t1 t] k by simp
  from wi have "set (mrt_texture (cp_renderTarget (copyPass t))) \<inter>
                set (mrt_texture (vp_renderTarget (velocityPass t))) = {}"
    by (simp add: wired_def Let_def)
  with v have old: "\<forall>h \<in> set (mrt_texture (cp_renderTarget (copyPass t))).
                       vram (gpu w1) h = vram (gpu w) h"
    by auto
  note fv = finish_vram [OF f w1, unfolded k]
  from fv have a: "vram (gpu w') (rt_texture (renderTarget t)) =
                program sh (ResolveSnap (fullscreenMaterial t)) (vram (gpu w1)) 0"
    by simp
  from old a have "\<exists>m. (\<forall>h \<in> set (mrt_texture (cp_renderTarget (copyPass t))). m h = vram (gpu w) h) \<and>
              vram (gpu w') (rt_texture (renderTarget t)) =
                program sh (ResolveSnap (fullscreenMaterial t)) m 0"
    by blast
  with fv show ?thesis by simp
qed

text \<open>
  Claim C4, as amended. The history (previous accumulated colour, depth, normal) lives in
  the three textures of the copy pass's own target, which the history uniforms name from
  construction on. \<open>render\<close> never changes these handles and never changes the copy target:
  the history is overwritten where it is, by one copy draw whose target is disjoint from the
  buffers it reads. That copy is the last draw of the frame and no earlier draw of the frame
  writes a history buffer, so the resolve draw samples the history as it was on entry; after
  the frame the history holds the resolve output and the current depth and normal.
\<close>

theorem C4_history_overwritten_by_copy:
  assumes "\<forall>x \<in> set (mrt_texture (vp_renderTarget vp)). x < next_id w0"
      and "\<forall>rt. opt_renderTarget opts = Some rt \<longrightarrow>
             rt_texture rt < next_id w0 \<and> rt_texture rt \<notin> set (mrt_texture (vp_renderTarget vp))"
      and "render_frames sh g n (fst (TemporalResolvePass_new cam vp opts w0), wa) = Inr (t, w)"
      and "TemporalResolvePass_render sh g (t, w) = Inr (t', w')"
  shows "accumulatedTexture (fullscreenMaterial t) = Some (mrt_texture (cp_renderTarget (copyPass t)) ! 0) \<and>
         lastDepthTexture (fullscreenMaterial t) = Some (mrt_texture (cp_renderTarget (copyPass t)) ! 1) \<and>
         lastNormalTexture (fullscreenMaterial t) = Some (mrt_texture (cp_renderTarget (copyPass t)) ! 2) \<and>
         accumulatedTexture (fullscreenMaterial t') = accumulatedTexture (fullscreenMaterial t) \<and>
         lastDepthTexture (fullscreenMaterial t') = lastDepthTexture (fullscreenMaterial t) \<and>
         lastNormalTexture (fullscreenMaterial t') = lastNormalTexture (fullscreenMaterial t) \<and>
         cp_renderTarget (copyPass t') = cp_renderTarget (copyPass t) \<and>
         (\<exists>pre cu. new_draws w w' = pre @ [(mrt_texture (cp_renderTarget (copyPass t)), CopySnap cu)] \<and>
            set (mrt_texture (cp_renderTarget (copyPass t))) \<inter> reads (CopySnap cu) = {} \<and>
            (\<forall>e \<in> set pre. set (fst e) \<inter> set (mrt_texture (cp_renderTarget (copyPass t))) = {})) \<and>
         (\<exists>m. (\<forall>h \<in> set (mrt_texture (cp_renderTarget (copyPass t))). m h = vram (gpu w) h) \<and>
              vram (gpu w') (rt_texture (renderTarget t)) =
                program sh (ResolveSnap (fullscreenMaterial t)) m 0) \<and>
         vram (gpu w') (mrt_texture (cp_renderTarget (copyPass t)) ! 0) =
           vram (gpu w') (rt_texture (renderTarget t)) \<and>
         (\<forall>d. tr_depthTexture (fullscreenMaterial t) = Some d \<longrightarrow>
            vram (gpu w') (mrt_texture (cp_renderTarget (copyPass t)) ! 1) = vram (gpu w') d) \<and>
         (\<forall>n. tr_normalTexture (fullscreenMaterial t) = Some n \<longrightarrow>
            vram (gpu w') (mrt_texture (cp_renderTarget (copyPass t)) ! 2) = vram (gpu w') n)"
proof -
  let ?hs = "mrt_texture (cp_renderTarget (copyPass t))"
  let ?vs = "mrt_texture (vp_renderTarget (velocityPass t))"
  have w0: "wired (fst (TemporalResolvePass_new cam vp opts w0))"
    by (rule new_wired [OF assms(1,2)])
  from render_frames_inv [OF assms(3) w0] have wi: "wired t" by simp
  then have u: "accumulatedTexture (fullscreenMaterial t) = Some (?hs ! 0)"
      "lastDepthTexture (fullscreenMaterial t) = Some (?hs ! 1)"
      "lastNormalTexture (fullscreenMaterial t) = Some (?hs ! 2)"
      and s: "rt_texture (renderTarget t) \<notin> set ?hs" "set ?hs \<inter> set ?vs = {}"
    by (simp_all add: wired_def Let_def)
  note h = render_handles [OF assms(4)]
  from render_draws [OF assms(4)] obtain pre cu where
    d: "new_draws w w' = pre @
       [([rt_texture (renderTarget t)], ResolveSnap (fullscreenMaterial t)),
        (?hs, CopySnap cu)]"
       "\<forall>e \<in> set pre. \<exists>c b ms. e = (?vs, GeometrySnap c b ms)"
    by blast
  have last: "(?hs, CopySnap cu) \<in> set (new_draws w w')"
    by (simp add: d(1))
  from render_draws_separate [OF assms(4) wi] last
  have sep: "set ?hs \<inter> reads (CopySnap cu) = {}" by fastforce
  have before: "\<forall>e \<in> set (pre @ [([rt_texture (renderTarget t)], ResolveSnap (fullscreenMaterial t))]).
                  set (fst e) \<inter> set ?hs = {}"
  proof
    fix e assume "e \<in> set (pre @ [([rt_texture (renderTarget t)], ResolveSnap (fullscreenMaterial t))])"
    then consider "e \<in> set pre" | "e = ([rt_texture (renderTarget t)], ResolveSnap (fullscreenMaterial t))"
      by auto
    then show "set (fst e) \<inter> set ?hs = {}"
    proof cases
      case 1
      with d(2) have "fst e = ?vs" by fastforce
      with s(2) show ?thesis by auto
    next
      case 2
      with s(1) show ?thesis by simp
    qed
  qed
  have dr: "\<exists>pre cu. new_draws w w' = pre @ [(?hs, CopySnap cu)] \<and>
            set ?hs \<inter> reads (CopySnap cu) = {} \<and>
            (\<forall>e \<in> set pre. set (fst e) \<inter> set ?hs = {})"
    apply (rule exI [of _ "pre @ [([rt_texture (renderTarget t)], ResolveSnap (fullscreenMaterial t))]"])
    apply (rule exI [of _ cu])
    using d(1) sep before by simp
  note rh = render_history [OF assms(4) wi]
  from u h dr rh show ?thesis by simp
qed

lemma example_VelocityPass_simps:
  "mrt_texture (vp_renderTarget (fst example_VelocityPass)) = [1000, 1001, 1002]"
  "vp_camera (fst example_VelocityPass) = 0"
  "next_id (snd example_VelocityPass) = 1003"
  "cameras (snd example_VelocityPass) = (\<lambda>c. example_camera)"
  "meshes (snd example_VelocityPass) = meshes example_world"
  "background (snd example_VelocityPass) = OtherBackground 5"
  "gpu (snd example_VelocityPass) = example_renderer"
  by (simp_all add: example_VelocityPass_def VelocityPass_new_def new_textures_def
        example_world_def)

lemma example_TemporalResolvePass_simps:
  "rt_texture (renderTarget (fst example_TemporalResolvePass)) = 1003"
  "mrt_texture (cp_renderTarget (copyPass (fst example_TemporalResolvePass))) = [1004, 1005, 1006]"
  "accumulatedTexture (fullscreenMaterial (fst example_TemporalResolvePass)) = Some 1004"
  "velocityPass (fst example_TemporalResolvePass) = fst example_VelocityPass"
  "renderVelocity (fst example_TemporalResolvePass)"
  "tr_camera (fst example_TemporalResolvePass) = 0"
  "r2Sequence (fst example_TemporalResolvePass) = []"
  "pointsIndex (fst example_TemporalResolvePass) = 0"
  "cameras (snd example_TemporalResolvePass) = (\<lambda>c. example_camera)"
  "gpu (snd example_TemporalResolvePass) = example_renderer"
  by (simp_all add: example_TemporalResolvePass_def TemporalResolvePass_new_def
        defaultTemporalResolvePassOptions_def new_WebGLRenderTarget_def CopyPass_new_def
        new_textures_def at_index_def example_VelocityPass_simps split: prod.splits)

lemma example_wired: "wired (fst example_TemporalResolvePass)"
  unfolding example_TemporalResolvePass_def
  by (rule new_wired) (simp_all add: example_VelocityPass_simps defaultTemporalResolvePassOptions_def)

text \<open>
  Claim C4 as stated (the history is replaced by a handle swap, never mutated in place) fails:
  on the example pass one frame runs, the history uniform of the accumulated colour names the
  same buffer before and after, and the contents of that buffer have changed.
\<close>

theorem C4_counterexample:
  "\<not> isl (TemporalResolvePass_render example_program example_getVisibleChildren
            example_TemporalResolvePass) \<and>
   accumulatedTexture (fullscreenMaterial (fst example_TemporalResolvePass)) = Some 1004 \<and>
   accumulatedTexture (fullscreenMaterial (fst (projr (TemporalResolvePass_render example_program
       example_getVisibleChildren example_TemporalResolvePass)))) = Some 1004 \<and>
   vram (gpu (snd example_TemporalResolvePass)) 1004 = 10040 \<and>
   vram (gpu (snd (projr (TemporalResolvePass_render example_program
       example_getVisibleChildren example_TemporalResolvePass)))) 1004 = 50"
proof -
  let ?t = "fst example_TemporalResolvePass" and ?w = "snd example_TemporalResolvePass"
  have api: "\<not> renderVelocity ?t \<or> hasViewOffset (cameras ?w (vp_camera (velocityPass ?t)))"
    by (simp add: example_TemporalResolvePass_simps example_camera_def)
  from TemporalResolvePass_render_total [OF api, of example_program example_getVisibleChildren]
  obtain t' w' where
    r: "TemporalResolvePass_render example_program example_getVisibleChildren (?t, ?w) = Inr (t', w')"
    by blast
  then have R: "TemporalResolvePass_render example_program example_getVisibleChildren
                  example_TemporalResolvePass = Inr (t', w')"
    by simp
  from render_handles [OF r]
  have a: "accumulatedTexture (fullscreenMaterial t') = Some 1004"
    by (simp add: example_TemporalResolvePass_simps)
  from render_history [OF r example_wired]
  have b: "vram (gpu w') 1004 = 50"
    by (auto simp: example_TemporalResolvePass_simps program_def example_program_def)
  have c: "vram (gpu ?w) 1004 = 10040"
    by (simp add: example_TemporalResolvePass_simps example_renderer_def)
  show ?thesis
    using a b c by (simp add: R example_TemporalResolvePass_simps)
qed

theorem C4_history_overwritten_by_copy_witness:
  "\<exists>t w t' w'.
     render_frames example_program example_getVisibleChildren 1 example_TemporalResolvePass
       = Inr (t, w) \<and>
     TemporalResolvePass_render example_program example_getVisibleChildren (t, w) = Inr (t', w') \<and>
     accumulatedTexture (fullscreenMaterial t') = accumulatedTexture (fullscreenMaterial t) \<and>
     cp_renderTarget (copyPass t') = cp_renderTarget (copyPass t) \<and>
     vram (gpu w') (mrt_texture (cp_renderTarget (copyPass t)) ! 0) =
       vram (gpu w') (rt_texture (renderTarget t))"
proof -
  let ?t = "fst example_TemporalResolvePass" and ?w = "snd example_TemporalResolvePass"
  have cams: "\<forall>c. hasViewOffset (cameras ?w c)"
    by (simp add: example_TemporalResolvePass_simps example_camera_def)
  from render_frames_total [OF cams, of example_program example_getVisibleChildren 1 ?t]
  obtain t w where
    f: "render_frames example_program example_getVisibleChildren 1 (?t, ?w) = Inr (t, w)" and
    c: "\<forall>c. hasViewOffset (cameras w c)"
    by blast
  from TemporalResolvePass_render_total [of t w example_program example_getVisibleChildren] c
  obtain t' w' where
    r: "TemporalResolvePass_render example_program example_getVisibleChildren (t, w) = Inr (t', w')"
    by auto
  have h1: "\<forall>x \<in> set (mrt_texture (vp_renderTarget (fst example_VelocityPass))).
              x < next_id (snd example_VelocityPass)"
    by (simp add: example_VelocityPass_simps)
  have h2: "\<forall>rt. opt_renderTarget defaultTemporalResolvePassOptions = Some rt \<longrightarrow>
             rt_texture rt < next_id (snd example_VelocityPass) \<and>
             rt_texture rt \<notin> set (mrt_texture (vp_renderTarget (fst example_VelocityPass)))"
    by (simp add: defaultTemporalResolvePassOptions_def)
  from C4_history_overwritten_by_copy
         [OF h1 h2 f [unfolded example_TemporalResolvePass_def [of] ] r]
  have "accumulatedTexture (fullscreenMaterial t') = accumulatedTexture (fullscreenMaterial t) \<and>
     cp_renderTarget (copyPass t') = cp_renderTarget (copyPass t) \<and>
     vram (gpu w') (mrt_texture (cp_renderTarget (copyPass t)) ! 0) =
       vram (gpu w') (rt_texture (renderTarget t))"
    by simp
  with f r show ?thesis by auto
qed

theorem C5_reads_writes_disjoint_witness:
  "\<exists>t w.
     render_frames example_program example_getVisibleChildren 2 example_TemporalResolvePass
       = Inr (t, w) \<and>
     (\<forall>e \<in> set (new_draws (snd example_TemporalResolvePass) w).
        set (fst e) \<inter> reads (snd e) = {})"
proof -
  let ?t = "fst example_TemporalResolvePass" and ?w = "snd example_TemporalResolvePass"
  have cams: "\<forall>c. hasViewOffset (cameras ?w c)"
    by (simp add: example_TemporalResolvePass_simps example_camera_def)
  from render_frames_total [OF cams, of example_program example_getVisibleChildren 2 ?t]
  obtain t w where
    f: "render_frames example_program example_getVisibleChildren 2 (?t, ?w) = Inr (t, w)"
    by blast
  have h1: "\<forall>x \<in> set (mrt_texture (vp_renderTarget (fst example_VelocityPass))).
              x < next_id (snd example_VelocityPass)"
    by (simp add: example_VelocityPass_simps)
  have h2: "\<forall>rt. opt_renderTarget defaultTemporalResolvePassOptions = Some rt \<longrightarrow>
             rt_texture rt < next_id (snd example_VelocityPass) \<and>
             rt_texture rt \<notin> set (mrt_texture (vp_renderTarget (fst example_VelocityPass)))"
    by (simp add: defaultTemporalResolvePassOptions_def)
  from C5_reads_writes_disjoint [OF h1 h2 f [unfolded example_TemporalResolvePass_def [of]]]
  have "\<forall>e \<in> set (new_draws ?w w). set (fst e) \<inter> reads (snd e) = {}"
    unfolding example_TemporalResolvePass_def by blast
  with f show ?thesis by auto
qed

theorem C6_view_offset_cleared_witness:
  "\<exists>this' w' c b ms.
     VelocityPass_render example_program example_getVisibleChildren example_VelocityPass
       = Inr (this', w') \<and>
     calls (gpu w') = [([1000, 1001, 1002], GeometrySnap c b ms)] \<and>
     view_offset c = None \<and>
     view_offset (cameras (snd example_VelocityPass) 0) = Some (1 / 4, - (1 / 4)) \<and>
     view_offset (cameras w' 0) = Some (1 / 4, - (1 / 4))"
proof -
  let ?vp = "fst example_VelocityPass" and ?w = "snd example_VelocityPass"
  have api: "hasViewOffset (cameras ?w (vp_camera ?vp))"
    by (simp add: example_VelocityPass_simps example_camera_def)
  from C6_view_offset_cleared [of ?w ?vp example_program example_getVisibleChildren
         "fst example_TemporalResolvePass"] api
  obtain this' w' c b ms where
    r: "VelocityPass_render example_program example_getVisibleChildren (?vp, ?w) = Inr (this', w')"
       "calls (gpu w') = calls (gpu ?w) @ [(mrt_texture (vp_renderTarget ?vp), GeometrySnap c b ms)]"
       "view_offset c = None"
       "\<forall>v. view (cameras ?w (vp_camera ?vp)) = Some v \<longrightarrow>
              view_offset (cameras w' (vp_camera ?vp)) = Some (offsetX v, offsetY v)"
    by auto
  have a: "calls (gpu w') = [([1000, 1001, 1002], GeometrySnap c b ms)]"
    using r(2) by (simp add: example_VelocityPass_simps example_renderer_def)
  have b: "view_offset (cameras (snd example_VelocityPass) 0) = Some (1 / 4, - (1 / 4))"
    by (simp add: example_VelocityPass_simps example_camera_def view_offset_def)
  have c: "view_offset (cameras w' 0) = Some (1 / 4, - (1 / 4))"
    using r(4) by (simp add: example_VelocityPass_simps example_camera_def)
  from r(1,3) a b c show ?thesis by auto
qed

theorem C7_previous_camera_matrices_witness:
  "prevCameraMatrixWorld (fullscreenMaterial (fst example_moved_camera)) = [1] \<and>
   prevViewMatrix (fullscreenMaterial (fst example_moved_camera)) = [2] \<and>
   \<not> isl (TemporalResolvePass_render example_program example_getVisibleChildren
            example_moved_camera) \<and>
   prevCameraMatrixWorld (fullscreenMaterial (fst (projr (TemporalResolvePass_render
       example_program example_getVisibleChildren example_moved_camera)))) = [3] \<and>
   prevViewMatrix (fullscreenMaterial (fst (projr (TemporalResolvePass_render
       example_program example_getVisibleChildren example_moved_camera)))) = [4] \<and>
   last (butlast (calls (gpu (snd (projr (TemporalResolvePass_render
       example_program example_getVisibleChildren example_moved_camera)))))) =
     ([1003], ResolveSnap (fullscreenMaterial (fst example_moved_camera))) \<and>
   fst (last (calls (gpu (snd (projr (TemporalResolvePass_render
       example_program example_getVisibleChildren example_moved_camera)))))) = [1004, 1005, 1006]"
proof -
  let ?t = "fst example_moved_camera" and ?w = "snd example_moved_camera"
  have t: "?t = fst example_TemporalResolvePass" by (simp add: example_moved_camera_def)
  have cam: "cameras ?w = (\<lambda>c. example_camera\<lparr>matrixWorld := [3], matrixWorldInverse := [4]\<rparr>)"
    by (simp add: example_moved_camera_def)
  have p0: "prevCameraMatrixWorld (fullscreenMaterial ?t) = [1] \<and>
            prevViewMatrix (fullscreenMaterial ?t) = [2]"
    unfolding t
    by (simp add: example_TemporalResolvePass_def TemporalResolvePass_new_def
          defaultTemporalResolvePassOptions_def new_WebGLRenderTarget_def CopyPass_new_def
          Let_def new_textures_def at_index_def example_VelocityPass_simps example_camera_def
          split: prod.splits)
  have api: "\<not> renderVelocity ?t \<or> hasViewOffset (cameras ?w (vp_camera (velocityPass ?t)))"
    by (simp add: cam example_camera_def)
  from TemporalResolvePass_render_total [OF api, of example_program example_getVisibleChildren]
  obtain t' w' where
    r: "TemporalResolvePass_render example_program example_getVisibleChildren (?t, ?w) = Inr (t', w')"
    by blast
  from TemporalResolvePass_render_Inr [OF r] obtain t1 w1 where
    f: "save_last_transformations (save_history example_program (resolve_draw example_program (t1, w1)))
          = (t', w')" and
    k: "tr_camera t1 = tr_camera ?t" and
    m: "\<forall>c. matrixWorld (cameras w1 c) = matrixWorld (cameras ?w c) \<and>
          matrixWorldInverse (cameras w1 c) = matrixWorldInverse (cameras ?w c) \<and>
          hasViewOffset (cameras w1 c) = hasViewOffset (cameras ?w c)"
    by blast
  from finish_frame [OF f] have c': "cameras w' = cameras w1" and tc: "tr_camera t' = tr_camera t1"
    by simp_all
  have now: "matrixWorld (cameras w' (tr_camera t')) = [3] \<and>
             matrixWorldInverse (cameras w' (tr_camera t')) = [4]"
    using m by (simp add: c' cam)
  from C7_previous_camera_matrices [OF r] obtain pre cu where
    a: "prevCameraMatrixWorld (fullscreenMaterial t') = matrixWorld (cameras w' (tr_camera t'))"
       "prevViewMatrix (fullscreenMaterial t') = matrixWorldInverse (cameras w' (tr_camera t'))" and
    c: "calls (gpu w') = calls (gpu ?w) @ pre @
          [([rt_texture (renderTarget ?t)], ResolveSnap (fullscreenMaterial ?t)),
           (mrt_texture (cp_renderTarget (copyPass ?t)), CopySnap cu)]"
    by blast
  have ids: "rt_texture (renderTarget ?t) = 1003"
            "mrt_texture (cp_renderTarget (copyPass ?t)) = [1004, 1005, 1006]"
    unfolding t by (simp_all add: example_TemporalResolvePass_simps)
  have d: "last (butlast (calls (gpu w'))) = ([1003], ResolveSnap (fullscreenMaterial ?t))"
          "fst (last (calls (gpu w'))) = [1004, 1005, 1006]"
    unfolding c ids by (simp_all add: butlast_append)
  have e: "TemporalResolvePass_render example_program example_getVisibleChildren
             example_moved_camera = Inr (t', w')"
    using r by simp
  from p0 a now d show ?thesis unfolding e by simp
qed

theorem C8_scene_restored_witness:
  "hasViewOffset (cameras (snd example_VelocityPass) (vp_camera (fst example_VelocityPass))) \<and>
   distinct (example_getVisibleChildren (meshes (snd example_VelocityPass))) \<and>
   (\<exists>this' w'.
      VelocityPass_render example_program example_getVisibleChildren example_VelocityPass
        = Inr (this', w') \<and>
      visibleMeshes this' = [0, 1] \<and>
      material (meshes w' 0) = 100 \<and> visible (meshes w' 0) \<and>
      material (meshes w' 1) = 101 \<and> visible (meshes w' 1) \<and>
      meshes w' 2 = meshes example_world 2 \<and>
      background w' = OtherBackground 5)"
proof -
  let ?vp = "fst example_VelocityPass" and ?w = "snd example_VelocityPass"
  have api: "hasViewOffset (cameras ?w (vp_camera ?vp))"
    by (simp add: example_VelocityPass_simps example_camera_def)
  have d: "distinct (example_getVisibleChildren (meshes ?w))"
    by (simp add: example_getVisibleChildren_def)
  from C8_scene_restored [of ?w ?vp example_getVisibleChildren example_program, OF api d] obtain this' w' where
    r: "VelocityPass_render example_program example_getVisibleChildren (?vp, ?w) = Inr (this', w')"
       "visibleMeshes this' = example_getVisibleChildren (meshes ?w)"
       "\<forall>c \<in> set (visibleMeshes this').
          material (meshes w' c) = material (meshes ?w c) \<and> visible (meshes w' c)"
       "\<forall>c. c \<notin> set (visibleMeshes this') \<longrightarrow> meshes w' c = meshes ?w c"
       "background w' = background ?w"
    by blast
  have v: "visibleMeshes this' = [0, 1]"
    using r(2) by (simp add: example_getVisibleChildren_def)
  from r(3,4,5) have "material (meshes w' 0) = 100 \<and> visible (meshes w' 0) \<and>
      material (meshes w' 1) = 101 \<and> visible (meshes w' 1) \<and>
      meshes w' 2 = meshes example_world 2 \<and>
      background w' = OtherBackground 5"
    by (simp add: v example_VelocityPass_simps example_world_def)
  with api d r(1) v show ?thesis by auto
qed

end
